theory Spec2Isabelle
  imports Main "HOL-Library.Sublist" "HOL-Library.AList"
begin

section \<open>Python values and the string operations the plugin uses\<close>

text \<open>
  The plugin \<open>NAStoolSync\<close> (\<open>src/app/plugins/nastoolsync/__init__.py\<close>) moves
  three kinds of records from a NAStool database into MoviePilot's stores. The model
  below follows that file function by function.

  Strings are the UTF-8 bytes of the text (\<open>char list\<close>); the characters the code
  looks for (\<open>:\<close>, \<open>-\<close>, newline, backslash, slash, the decimal digits) are
  ASCII, and an ASCII byte never lies inside the encoding of another character.
  A dynamically typed Python value (a database cell, or what \<open>json.loads\<close>
  returns) is a \<open>pyval\<close>; a Python \<open>dict\<close> keeps its insertion order and
  is an association list.
\<close>

datatype pyval =
    PNone
  | PBool bool
  | PInt int
  | PFloat string
  | PStr string
  | PList "pyval list"
  | PDict "(string \<times> pyval) list"

text \<open>The exceptions the code can raise on its inputs.\<close>

datatype error = JSONDecodeError | IndexError | ValueError | AttributeError | TypeError

definition and_then :: "error + 'a \<Rightarrow> ('a \<Rightarrow> error + 'b) \<Rightarrow> error + 'b" where
  "and_then r f = (case r of Inl e \<Rightarrow> Inl e | Inr v \<Rightarrow> f v)"

text \<open>\<open>s.split(sep)\<close> for a one-character separator: never an empty list.\<close>

fun split_char :: "char \<Rightarrow> string \<Rightarrow> string list" where
  "split_char sep [] = [[]]"
| "split_char sep (c # cs) =
     (if c = sep then [] # split_char sep cs
      else (case split_char sep cs of
              [] \<Rightarrow> [[c]]
            | w # ws \<Rightarrow> (c # w) # ws))"

text \<open>
  \<open>s.replace(old, new)\<close>: every non-overlapping occurrence of \<open>old\<close>, found from
  the left, becomes \<open>new\<close>. With an empty \<open>old\<close> Python puts \<open>new\<close> before
  every character and at the end; in UTF-8 a character begins at each byte that is not a
  continuation byte (\<open>0x80\<close> to \<open>0xBF\<close>).
\<close>

definition continuation :: "char \<Rightarrow> bool" where
  "continuation c = (128 \<le> (of_char c :: nat) \<and> (of_char c :: nat) < 192)"

function replace_occurrences :: "string \<Rightarrow> string \<Rightarrow> string \<Rightarrow> string" where
  "replace_occurrences [] old new = []"
| "replace_occurrences (c # cs) old new =
     (if old \<noteq> [] \<and> prefix old (c # cs)
      then new @ replace_occurrences (drop (length old) (c # cs)) old new
      else c # replace_occurrences cs old new)"
  by pat_completeness auto
termination
  by (relation "measure (\<lambda>(s, old, new). length s)") (auto simp: neq_Nil_conv)

definition py_replace :: "string \<Rightarrow> string \<Rightarrow> string \<Rightarrow> string" where
  "py_replace s old new =
     (if old = []
      then concat (map (\<lambda>c. if continuation c then [c] else new @ [c]) s) @ new
      else replace_occurrences s old new)"

text \<open>
  \<open>s.isdigit()\<close>: at least one character, all of them digits. The digits are the
  ten ASCII ones. Python also counts the other Unicode digits (full-width or superscript
  ones, say); a key index or a value written with those is outside what the model
  describes, here and in \<open>int(s)\<close> below.
\<close>

definition digit_char :: "char \<Rightarrow> bool" where
  "digit_char c = (c \<in> set ''0123456789'')"

definition isdigit :: "string \<Rightarrow> bool" where
  "isdigit s = (s \<noteq> [] \<and> list_all digit_char s)"

definition decimal :: "string \<Rightarrow> int" where
  "decimal s = foldl (\<lambda>n c. 10 * n + (int (of_char c) - 48)) 0 s"

text \<open>
  \<open>int(s)\<close> for a string: surrounding white space is dropped, one sign is allowed,
  and the digits may be grouped by single underscores. \<open>None\<close> is Python's
  \<open>ValueError\<close>. (The length limit newer interpreters put on the digit string is
  not modelled.)
\<close>

definition space_char :: "char \<Rightarrow> bool" where
  "space_char c = (c \<in> set [CHR 0x09, CHR 0x0A, CHR 0x0B, CHR 0x0C, CHR 0x0D, CHR '' ''])"

definition strip :: "string \<Rightarrow> string" where
  "strip s = rev (dropWhile space_char (rev (dropWhile space_char s)))"

definition grouped_digits :: "string \<Rightarrow> int option" where
  "grouped_digits s =
     (let groups = split_char (CHR ''_'') s
      in if list_all isdigit groups then Some (decimal (concat groups)) else None)"

definition py_int :: "string \<Rightarrow> int option" where
  "py_int s =
     (case strip s of
        [] \<Rightarrow> None
      | c # cs \<Rightarrow>
          if c = CHR ''-'' then map_option uminus (grouped_digits cs)
          else if c = CHR ''+'' then grouped_digits cs
          else grouped_digits (c # cs))"

text \<open>
  The guard \<open>str(v).isdigit()\<close> together with the \<open>int(v)\<close> it protects, for
  a Python value \<open>v\<close>: the text of a non-negative \<open>int\<close> is all digits, and so
  is a \<open>str\<close> of digits; the texts of \<open>None\<close>, a \<open>bool\<close>, a
  \<open>float\<close>, a negative number, a list and a dict never are. \<open>Some n\<close> says the
  guard holds and \<open>int(v)\<close> is \<open>n\<close>.
\<close>

fun digits_value :: "pyval \<Rightarrow> int option" where
  "digits_value (PInt i) = (if 0 \<le> i then Some i else None)"
| "digits_value (PStr s) = (if isdigit s then Some (decimal s) else None)"
| "digits_value _ = None"

text \<open>Truthiness of an optional string (\<open>None\<close> and \<open>""\<close> are false).\<close>

fun truthy :: "string option \<Rightarrow> bool" where
  "truthy None = False"
| "truthy (Some s) = (s \<noteq> [])"

text \<open>\<open>str(v)\<close> of an optional string: \<open>str(None)\<close> is the text \<open>None\<close>.\<close>

fun py_str :: "string option \<Rightarrow> string" where
  "py_str None = ''None''"
| "py_str (Some s) = s"

text \<open>\<open>os.path.basename\<close> (POSIX): what follows the last slash.\<close>

definition basename :: "string \<Rightarrow> string" where
  "basename p = rev (takeWhile (\<lambda>c. c \<noteq> CHR ''/'') (rev p))"

text \<open>\<open>xs[i]\<close>: an index past the end raises \<open>IndexError\<close>.\<close>

definition item :: "'a list \<Rightarrow> nat \<Rightarrow> error + 'a" where
  "item xs i = (if i < length xs then Inr (xs ! i) else Inl IndexError)"

text \<open>
  \<open>str(v).isdigit() and int(v) == int(sub[0])\<close>, where \<open>sub\<close> is a rule line
  split at its colons: \<open>int(sub[0])\<close> is evaluated, and may raise
  \<open>ValueError\<close>, only when the guard holds.
\<close>

definition same_index :: "pyval \<Rightarrow> string list \<Rightarrow> error + bool" where
  "same_index v sub =
     (case digits_value v of
        None \<Rightarrow> Inr False
      | Some n \<Rightarrow>
          and_then (item sub 0) (\<lambda>src.
            case py_int src of None \<Rightarrow> Inl ValueError | Some m \<Rightarrow> Inr (n = m)))"

text \<open>
  A \<open>for\<close> loop that rewrites a local variable and may raise: the steps run in
  order, each on the value the previous one left, and the first exception ends the loop.
\<close>

fun for_each :: "('a \<Rightarrow> 'b \<Rightarrow> error + 'b) \<Rightarrow> 'a list \<Rightarrow> 'b \<Rightarrow> error + 'b" where
  "for_each step [] v = Inr v"
| "for_each step (x # xs) v = and_then (step x v) (for_each step xs)"

fun map_result :: "('a \<Rightarrow> error + 'b) \<Rightarrow> 'a list \<Rightarrow> error + 'b list" where
  "map_result f [] = Inr []"
| "map_result f (x # xs) =
     and_then (f x) (\<lambda>y. and_then (map_result f xs) (\<lambda>ys. Inr (y # ys)))"

section \<open>Configuration, rows, stores and the plugin's state\<close>

text \<open>
  The configuration dict of \<open>init_plugin\<close>, with the eight keys it reads. A switch
  that is missing reads as \<open>None\<close>, which is false; a text that is missing is
  \<open>None\<close>.
\<close>

record config =
  clear :: bool
  nt_db_path :: "string option"
  path :: "string option"
  site :: "string option"
  transfer :: bool
  plugin :: bool
  downloader :: "string option"
  download :: bool

text \<open>
  Rows are the tuples \<open>cursor.fetchall()\<close> returns, in column order. The paths of a
  transfer row are SQL concatenations and the site and save path of a download row are
  text columns: text or \<open>NULL\<close>. The other cells are only handed on.

  A transfer row is \<open>(msrc, mdest, mmode, mtype, mcategory, mtitle, myear, mtmdbid,
  mseasons, mepisodes, mimage, mdownload_hash, mdate)\<close>.
\<close>

type_synonym transfer_row =
  "string option \<times> string option \<times> pyval \<times> pyval \<times> pyval \<times> pyval \<times> pyval \<times> pyval \<times>
   pyval \<times> pyval \<times> pyval \<times> pyval \<times> pyval"

text \<open>A row of \<open>PLUGIN_HISTORY\<close> is \<open>(ID, PLUGIN_ID, KEY, VALUE)\<close>.\<close>

type_synonym plugin_row = "pyval \<times> string \<times> string \<times> pyval"

text \<open>
  The columns of \<open>DOWNLOAD_HISTORY\<close> the download query reads:
  \<open>(SAVE_PATH, TYPE, TITLE, YEAR, TMDBID, SE, POSTER, DOWNLOAD_ID, TORRENT, DESC,
  SITE)\<close>.
\<close>

type_synonym download_history_row =
  "string option \<times> pyval \<times> pyval \<times> pyval \<times> pyval \<times> string option \<times> pyval \<times> pyval \<times>
   pyval \<times> pyval \<times> string option"

text \<open>
  A row of the download query is \<open>(mpath, mtype, mtitle, myear, mtmdbid, mseasons,
  mepisodes, mimages, mdownload_hash, mtorrent, mdesc, msite)\<close>.
\<close>

type_synonym download_row =
  "string option \<times> pyval \<times> pyval \<times> pyval \<times> pyval \<times> string option \<times> string option \<times>
   pyval \<times> pyval \<times> pyval \<times> pyval \<times> string option"

text \<open>
  The columns of \<open>TRANSFER_HISTORY\<close> the transfer query reads:
  \<open>(SOURCE_PATH, SOURCE_FILENAME, DEST_PATH, DEST_FILENAME, MODE, TYPE, CATEGORY, TITLE,
  YEAR, TMDBID, SEASON_EPISODE, DATE)\<close>.
\<close>

type_synonym transfer_table_row =
  "string option \<times> string option \<times> string option \<times> string option \<times> pyval \<times> pyval \<times>
   pyval \<times> pyval \<times> pyval \<times> pyval \<times> string option \<times> pyval"

text \<open>
  The NAStool database: the three tables the queries read, each in the order in which
  SQLite visits its rows. The transfer query joins \<open>TRANSFER_HISTORY\<close> with
  \<open>SELECT * FROM DOWNLOAD_HISTORY GROUP BY TMDBID\<close>, which has one row for each
  \<open>TMDBID\<close>; which row of the group gives that row its columns is SQLite's choice,
  and \<open>bare_row\<close> is that choice.
\<close>

record nt_db =
  TRANSFER_HISTORY :: "transfer_table_row list"
  PLUGIN_HISTORY :: "plugin_row list"
  DOWNLOAD_HISTORY :: "download_history_row list"
  bare_row :: "download_history_row list \<Rightarrow> download_history_row"

text \<open>The keyword arguments of \<open>TransferHistoryOper.add\<close>.\<close>

record transfer_history =
  th_src :: string
  th_dest :: string
  th_mode :: pyval
  th_type :: pyval
  th_category :: pyval
  th_title :: pyval
  th_year :: pyval
  th_tmdbid :: pyval
  th_seasons :: pyval
  th_episodes :: pyval
  th_image :: pyval
  th_download_hash :: pyval
  th_date :: pyval

text \<open>The keyword arguments of \<open>DownloadHistoryOper.add\<close>.\<close>

record download_history =
  dh_path :: string
  dh_type :: pyval
  dh_title :: pyval
  dh_year :: pyval
  dh_tmdbid :: pyval
  dh_seasons :: "string option"
  dh_episodes :: "string option"
  dh_image :: pyval
  dh_download_hash :: pyval
  dh_torrent_name :: pyval
  dh_torrent_description :: pyval
  dh_torrent_site :: "string option"

text \<open>
  The stores are collaborators: each is the list of calls it has received, oldest
  first. A store is taken to accept every call; what the database behind it refuses is
  outside the model.
\<close>

datatype transfer_call = Transfer_truncate | Transfer_add transfer_history
datatype plugin_call = Plugin_truncate | Plugin_save string string pyval
datatype download_call = Download_truncate | Download_add download_history

text \<open>
  Log lines, by level and kind (the texts are Chinese; the seconds a sync took are left
  out).
\<close>

datatype level = INFO | ERROR | DEBUG
datatype category = Transfers | Plugins | Downloads
datatype message =
    Sync_begins category
  | Store_emptied category
  | Sync_ended category
  | Nothing_fetched category
  | Fetched category nat
  | Synced pyval pyval pyval pyval pyval

text \<open>
  The plugin object and what it writes to: its attributes \<open>_clear\<close>, \<open>_nt_db_path\<close>,
  \<open>_path\<close>, \<open>_site\<close>, \<open>_transfer\<close>, \<open>_plugin\<close>, \<open>_downloader\<close>,
  \<open>_download\<close> (together a \<open>config\<close>), the three stores, the configuration that
  \<open>update_config\<close> has persisted, and the log.
\<close>

record state =
  attrs :: config
  transferhistory :: "transfer_call list"
  plugindata :: "plugin_call list"
  downloadhistory :: "download_call list"
  systemconfig :: "config option"
  log :: "(level \<times> message) list"

text \<open>A call either returns or raises; the writes made before the exception stay.\<close>

datatype outcome = Returned state | Raised error state

fun then_run :: "outcome \<Rightarrow> (state \<Rightarrow> outcome) \<Rightarrow> outcome" where
  "then_run (Returned s) f = f s"
| "then_run (Raised e s) f = Raised e s"

fun final :: "outcome \<Rightarrow> state" where
  "final (Returned s) = s"
| "final (Raised e s) = s"

fun raised :: "outcome \<Rightarrow> error option" where
  "raised (Returned s) = None"
| "raised (Raised e s) = Some e"

text \<open>\<open>for history in rows:\<close> with a body that writes to the stores.\<close>

fun for_rows :: "('r \<Rightarrow> state \<Rightarrow> outcome) \<Rightarrow> 'r list \<Rightarrow> state \<Rightarrow> outcome" where
  "for_rows body [] s = Returned s"
| "for_rows body (r # rs) s = then_run (body r s) (for_rows body rs)"

definition logger :: "level \<Rightarrow> message \<Rightarrow> state \<Rightarrow> state" where
  "logger l m s = s\<lparr>log := log s @ [(l, m)]\<rparr>"

section \<open>Reading the NAStool database\<close>

text \<open>
  SQLite's \<open>instr(X, c)\<close> (the position of the first \<open>c\<close>, counted from 1, or 0)
  and \<open>substr\<close> for a start position \<open>Y \<ge> 1\<close>, as both uses have it: a
  negative length takes the characters before position \<open>Y\<close>.
\<close>

definition instr :: "string \<Rightarrow> char \<Rightarrow> nat" where
  "instr X c = (if c \<in> set X then Suc (length (takeWhile (\<lambda>x. x \<noteq> c) X)) else 0)"

definition substr3 :: "string \<Rightarrow> nat \<Rightarrow> int \<Rightarrow> string" where
  "substr3 X Y Z =
     (if 0 \<le> Z then take (nat Z) (drop (Y - 1) X)
      else drop (Y - 1 - nat (- Z)) (take (Y - 1) X))"

definition substr2 :: "string \<Rightarrow> nat \<Rightarrow> string" where
  "substr2 X Y = drop (Y - 1) X"

text \<open>
  \<open>CASE SE WHEN NULL THEN NULL ELSE substr(...) END\<close>: the comparison with
  \<open>NULL\<close> never holds, so the \<open>ELSE\<close> branch is taken; on a \<open>NULL\<close> cell
  \<open>substr\<close> is \<open>NULL\<close>.
\<close>

definition seasons_of :: "string option \<Rightarrow> string option" where
  "seasons_of SE = map_option (\<lambda>X. substr3 X 1 (int (instr X (CHR '' '')) - 1)) SE"

definition episodes_of :: "string option \<Rightarrow> string option" where
  "episodes_of SE = map_option (\<lambda>X. substr2 X (instr X (CHR '' '') + 1)) SE"

text \<open>The download query: \<open>SELECT ... FROM DOWNLOAD_HISTORY WHERE SAVE_PATH IS NOT NULL\<close>.\<close>

fun download_select :: "download_history_row \<Rightarrow> download_row" where
  "download_select (SAVE_PATH, TYPE', TITLE, YEAR, TMDBID, SE, POSTER, DOWNLOAD_ID, TORRENT,
      DESC', SITE) =
     (SAVE_PATH, TYPE', TITLE, YEAR, TMDBID, seasons_of SE, episodes_of SE, POSTER, DOWNLOAD_ID,
      TORRENT, DESC', SITE)"

definition download_query :: "nt_db \<Rightarrow> download_row list" where
  "download_query db =
     map download_select (filter (\<lambda>r. fst r \<noteq> None) (DOWNLOAD_HISTORY db))"

text \<open>
  The transfer query. \<open>X || '/' || Y\<close> is \<open>NULL\<close> when \<open>X\<close> or \<open>Y\<close>
  is, and holds a slash otherwise.
\<close>

fun concat_path :: "string option \<Rightarrow> string option \<Rightarrow> string option" where
  "concat_path (Some X) (Some Y) = Some (X @ ''/'' @ Y)"
| "concat_path _ _ = None"

fun transfer_src :: "transfer_table_row \<Rightarrow> string option" where
  "transfer_src (SOURCE_PATH, SOURCE_FILENAME, DEST_PATH, DEST_FILENAME, rest) =
     concat_path SOURCE_PATH SOURCE_FILENAME"

fun transfer_dest :: "transfer_table_row \<Rightarrow> string option" where
  "transfer_dest (SOURCE_PATH, SOURCE_FILENAME, DEST_PATH, DEST_FILENAME, rest) =
     concat_path DEST_PATH DEST_FILENAME"

text \<open>
  The Chinese words of the two \<open>CASE\<close> expressions, in UTF-8: hard link, move,
  copy, anime and television series.
\<close>

definition hard_link_label :: string where
  "hard_link_label =
     [CHR 0xE7, CHR 0xA1, CHR 0xAC, CHR 0xE9, CHR 0x93, CHR 0xBE, CHR 0xE6, CHR 0x8E, CHR 0xA5]"

definition move_label :: string where
  "move_label = [CHR 0xE7, CHR 0xA7, CHR 0xBB, CHR 0xE5, CHR 0x8A, CHR 0xA8]"

definition copy_label :: string where
  "copy_label = [CHR 0xE5, CHR 0xA4, CHR 0x8D, CHR 0xE5, CHR 0x88, CHR 0xB6]"

definition anime_label :: string where
  "anime_label = [CHR 0xE5, CHR 0x8A, CHR 0xA8, CHR 0xE6, CHR 0xBC, CHR 0xAB]"

definition series_label :: string where
  "series_label =
     [CHR 0xE7, CHR 0x94, CHR 0xB5, CHR 0xE8, CHR 0xA7, CHR 0x86, CHR 0xE5, CHR 0x89, CHR 0xA7]"

text \<open>
  \<open>CASE t.MODE WHEN ... THEN 'link' WHEN ... THEN 'move' WHEN ... THEN 'copy' END\<close>
  (any other mode gives \<open>NULL\<close>) and
  \<open>CASE t.TYPE WHEN ... THEN ... ELSE t.TYPE END\<close>.
\<close>

definition mode_of :: "pyval \<Rightarrow> pyval" where
  "mode_of MODE =
     (if MODE = PStr hard_link_label then PStr ''link''
      else if MODE = PStr move_label then PStr ''move''
      else if MODE = PStr copy_label then PStr ''copy''
      else PNone)"

definition type_of :: "pyval \<Rightarrow> pyval" where
  "type_of TYPE' = (if TYPE' = PStr anime_label then PStr series_label else TYPE')"

text \<open>A text cell as a Python value.\<close>

fun cell :: "string option \<Rightarrow> pyval" where
  "cell None = PNone"
| "cell (Some t) = PStr t"

text \<open>
  The columns of a download row that the join uses, and the comparison \<open>=\<close> of the
  \<open>ON\<close> clause: it holds for two equal cells neither of which is \<open>NULL\<close>.
\<close>

fun download_type :: "download_history_row \<Rightarrow> pyval" where
  "download_type (SAVE_PATH, TYPE', TITLE, YEAR, TMDBID, SE, POSTER, DOWNLOAD_ID, rest) = TYPE'"

fun download_title :: "download_history_row \<Rightarrow> pyval" where
  "download_title (SAVE_PATH, TYPE', TITLE, YEAR, TMDBID, SE, POSTER, DOWNLOAD_ID, rest) = TITLE"

fun download_tmdbid :: "download_history_row \<Rightarrow> pyval" where
  "download_tmdbid (SAVE_PATH, TYPE', TITLE, YEAR, TMDBID, SE, POSTER, DOWNLOAD_ID, rest) = TMDBID"

fun download_poster :: "download_history_row \<Rightarrow> pyval" where
  "download_poster (SAVE_PATH, TYPE', TITLE, YEAR, TMDBID, SE, POSTER, DOWNLOAD_ID, rest) = POSTER"

fun download_id :: "download_history_row \<Rightarrow> pyval" where
  "download_id (SAVE_PATH, TYPE', TITLE, YEAR, TMDBID, SE, POSTER, DOWNLOAD_ID, rest) =
     DOWNLOAD_ID"

fun transfer_type :: "transfer_table_row \<Rightarrow> pyval" where
  "transfer_type (SOURCE_PATH, SOURCE_FILENAME, DEST_PATH, DEST_FILENAME, MODE, TYPE', CATEGORY,
      TITLE, rest) = TYPE'"

fun transfer_title :: "transfer_table_row \<Rightarrow> pyval" where
  "transfer_title (SOURCE_PATH, SOURCE_FILENAME, DEST_PATH, DEST_FILENAME, MODE, TYPE', CATEGORY,
      TITLE, rest) = TITLE"

definition sql_equal :: "pyval \<Rightarrow> pyval \<Rightarrow> bool" where
  "sql_equal a b = (a \<noteq> PNone \<and> b \<noteq> PNone \<and> a = b)"

text \<open>
  \<open>SELECT * FROM DOWNLOAD_HISTORY GROUP BY TMDBID\<close>: the rows of the table are put
  in groups of equal \<open>TMDBID\<close> (the \<open>NULL\<close>s form one group) and each group
  gives one row, the one \<open>bare_row\<close> takes from it. The groups are listed here in the
  order of \<open>remdups\<close>; SQLite lists them in the order of its sorter. The statements
  about the transfer import depend on how many rows are joined to a transfer row, not on
  their order.
\<close>

definition grouped_downloads :: "nt_db \<Rightarrow> download_history_row list" where
  "grouped_downloads db =
     map (\<lambda>k. bare_row db (filter (\<lambda>d. download_tmdbid d = k) (DOWNLOAD_HISTORY db)))
       (remdups (map download_tmdbid (DOWNLOAD_HISTORY db)))"

text \<open>The rows \<open>d\<close> that \<open>ON t.TITLE = d.TITLE AND t.TYPE = d.TYPE\<close> joins to \<open>t\<close>.\<close>

definition matches :: "nt_db \<Rightarrow> transfer_table_row \<Rightarrow> download_history_row list" where
  "matches db t =
     filter (\<lambda>d. sql_equal (transfer_title t) (download_title d) \<and>
                 sql_equal (transfer_type t) (download_type d))
       (grouped_downloads db)"

text \<open>The \<open>SELECT\<close> list for a row \<open>t\<close> and the row \<open>d\<close> joined to it, if any.\<close>

fun transfer_select :: "transfer_table_row \<Rightarrow> download_history_row option \<Rightarrow> transfer_row" where
  "transfer_select (SOURCE_PATH, SOURCE_FILENAME, DEST_PATH, DEST_FILENAME, MODE, TYPE', CATEGORY,
      TITLE, YEAR, TMDBID, SEASON_EPISODE, DATE') d =
     (concat_path SOURCE_PATH SOURCE_FILENAME, concat_path DEST_PATH DEST_FILENAME,
      mode_of MODE, type_of TYPE', CATEGORY, TITLE, YEAR, TMDBID,
      cell (seasons_of SEASON_EPISODE), cell (episodes_of SEASON_EPISODE),
      (case d of None \<Rightarrow> PNone | Some r \<Rightarrow> download_poster r),
      (case d of None \<Rightarrow> PNone | Some r \<Rightarrow> download_id r),
      DATE')"

text \<open>
  \<open>LEFT JOIN\<close>: a row of \<open>TRANSFER_HISTORY\<close> appears once for each row joined
  to it, and once, with \<open>NULL\<close> for the image and the hash, when there is none.
\<close>

definition joined :: "nt_db \<Rightarrow> transfer_table_row \<Rightarrow> transfer_row list" where
  "joined db t =
     (if matches db t = [] then [transfer_select t None]
      else map (\<lambda>d. transfer_select t (Some d)) (matches db t))"

definition transfer_query :: "nt_db \<Rightarrow> transfer_row list" where
  "transfer_query db = concat (map (joined db) (TRANSFER_HISTORY db))"

text \<open>
  The three \<open>get_nt_..._history\<close> functions: when \<open>fetchall()\<close> is empty they log
  an error and \<open>return\<close> without a value, which is \<open>None\<close>.
\<close>

definition get_nt_transfer_history :: "nt_db \<Rightarrow> state \<Rightarrow> transfer_row list option \<times> state" where
  "get_nt_transfer_history db s =
     (let nt_historys = transfer_query db
      in if nt_historys = [] then (None, logger ERROR (Nothing_fetched Transfers) s)
         else (Some nt_historys, logger INFO (Fetched Transfers (length nt_historys)) s))"

definition get_nt_plugin_history :: "nt_db \<Rightarrow> state \<Rightarrow> plugin_row list option \<times> state" where
  "get_nt_plugin_history db s =
     (let plugin_history = PLUGIN_HISTORY db
      in if plugin_history = [] then (None, logger ERROR (Nothing_fetched Plugins) s)
         else (Some plugin_history, logger INFO (Fetched Plugins (length plugin_history)) s))"

definition get_nt_download_history :: "nt_db \<Rightarrow> state \<Rightarrow> download_row list option \<times> state" where
  "get_nt_download_history db s =
     (let download_history = download_query db
      in if download_history = [] then (None, logger ERROR (Nothing_fetched Downloads) s)
         else (Some download_history, logger INFO (Fetched Downloads (length download_history)) s))"

text \<open>\<open>for history in rows:\<close> where \<open>rows\<close> may be \<open>None\<close>, which is not iterable.\<close>

fun iterate :: "('r \<Rightarrow> state \<Rightarrow> outcome) \<Rightarrow> 'r list option \<Rightarrow> state \<Rightarrow> outcome" where
  "iterate body None s = Raised TypeError s"
| "iterate body (Some rows) s = for_rows body rows s"

section \<open>Transfer history\<close>

text \<open>
  One line of the path map applied to both paths:
  \<open>msrc.replace(sub_paths[0], sub_paths[1]).replace('\\', '/')\<close>, and the same for
  \<open>mdest\<close>.
\<close>

definition path_step :: "string \<Rightarrow> string \<times> string \<Rightarrow> error + string \<times> string" where
  "path_step path' v =
     (let sub_paths = split_char (CHR '':'') path'
      in and_then (item sub_paths 0) (\<lambda>p0.
         and_then (item sub_paths 1) (\<lambda>p1.
           Inr (py_replace (py_replace (fst v) p0 p1) [CHR 0x5C] ''/'',
                py_replace (py_replace (snd v) p0 p1) [CHR 0x5C] ''/''))))"

definition remap_paths :: "string option \<Rightarrow> string \<times> string \<Rightarrow> error + string \<times> string" where
  "remap_paths path_text v =
     (if truthy path_text
      then for_each path_step (split_char (CHR 0x0A) (the path_text)) v
      else Inr v)"

text \<open>
  The call \<open>self._transferhistory.add(src=msrc, dest=mdest, mode=mmode, ...)\<close>: the
  two paths as the path map left them, the other cells of the row as they are.
\<close>

fun transfer_kwargs :: "string \<Rightarrow> string \<Rightarrow> transfer_row \<Rightarrow> transfer_history" where
  "transfer_kwargs msrc' mdest' (msrc, mdest, mmode, mtype, mcategory, mtitle, myear, mtmdbid,
      mseasons, mepisodes, mimage, mdownload_hash, mdate) =
     \<lparr>th_src = msrc', th_dest = mdest', th_mode = mmode, th_type = mtype,
      th_category = mcategory, th_title = mtitle, th_year = myear, th_tmdbid = mtmdbid,
      th_seasons = mseasons, th_episodes = mepisodes, th_image = mimage,
      th_download_hash = mdownload_hash, th_date = mdate\<rparr>"

fun synced :: "transfer_row \<Rightarrow> message" where
  "synced (msrc, mdest, mmode, mtype, mcategory, mtitle, myear, mtmdbid, mseasons, mepisodes,
      mimage, mdownload_hash, mdate) = Synced mtitle myear mtmdbid mseasons mepisodes"

text \<open>
  The body of the loop over the transfer rows. \<open>if not msrc or not mdest: continue\<close>
  leaves out a row with a path that is \<open>NULL\<close> or empty; nothing trims the paths.
\<close>

definition transfer_body :: "transfer_row \<Rightarrow> state \<Rightarrow> outcome" where
  "transfer_body history s =
     (let msrc = fst history; mdest = fst (snd history)
      in if \<not> truthy msrc \<or> \<not> truthy mdest then Returned s
         else (case remap_paths (path (attrs s)) (the msrc, the mdest) of
                 Inl e \<Rightarrow> Raised e s
               | Inr (msrc', mdest') \<Rightarrow>
                   Returned (logger DEBUG (synced history)
                     (s\<lparr>transferhistory := transferhistory s @
                          [Transfer_add (transfer_kwargs msrc' mdest' history)]\<rparr>))))"

definition sync_transfer_history :: "transfer_row list option \<Rightarrow> state \<Rightarrow> outcome" where
  "sync_transfer_history transfer_history s =
     (let s1 = logger INFO (Sync_begins Transfers) s;
          s2 = (if clear (attrs s1)
                then (logger INFO (Store_emptied Transfers) s1)
                       \<lparr>transferhistory := transferhistory s1 @ [Transfer_truncate]\<rparr>
                else s1)
      in then_run (iterate transfer_body transfer_history s2)
           (\<lambda>s3. Returned (logger INFO (Sync_ended Transfers) s3)))"

section \<open>Plugin history\<close>

text \<open>
  \<open>json.loads\<close> belongs to Python's library, so the decoder is a parameter
  \<open>loads\<close> of the model; \<open>None\<close> is its \<open>JSONDecodeError\<close>.

  \<open>if isinstance(plugin_value, str): plugin_value = json.loads(plugin_value)\<close>:
\<close>

definition decode :: "(string \<Rightarrow> pyval option) \<Rightarrow> pyval \<Rightarrow> error + pyval" where
  "decode loads plugin_value =
     (case plugin_value of
        PStr text \<Rightarrow> (case loads text of None \<Rightarrow> Inl JSONDecodeError | Some v \<Rightarrow> Inr v)
      | _ \<Rightarrow> Inr plugin_value)"

text \<open>\<open>d.get(k)\<close>: only a dict has the method; a missing key gives \<open>None\<close>.\<close>

definition dict_get :: "pyval \<Rightarrow> string \<Rightarrow> error + pyval" where
  "dict_get d k =
     (case d of
        PDict kvs \<Rightarrow> Inr (case map_of kvs k of None \<Rightarrow> PNone | Some v \<Rightarrow> v)
      | _ \<Rightarrow> Inl AttributeError)"

text \<open>
  \<open>if str(d.get(k)).isdigit() and int(d.get(k)) == int(sub_downloaders[0]):
  d[k] = sub_downloaders[1]\<close>
\<close>

definition rewrite_field :: "string \<Rightarrow> string list \<Rightarrow> pyval \<Rightarrow> error + pyval" where
  "rewrite_field k sub_downloaders d =
     and_then (dict_get d k) (\<lambda>x.
     and_then (same_index x sub_downloaders) (\<lambda>hit.
       if hit
       then and_then (item sub_downloaders 1) (\<lambda>d1.
              case d of
                PDict kvs \<Rightarrow> Inr (PDict (AList.update k (PStr d1) kvs))
              | _ \<Rightarrow> Inl AttributeError)
       else Inr d))"

text \<open>
  The branch for \<open>TorrentTransfer\<close>:
  \<open>if keys[0].isdigit() and int(keys[0]) == int(sub_downloaders[0]):
  plugin_key = plugin_key.replace(keys[0], sub_downloaders[1])\<close>, then the value is
  decoded and its \<open>to_download\<close> rewritten.
\<close>

definition torrent_transfer ::
  "(string \<Rightarrow> pyval option) \<Rightarrow> string list \<Rightarrow> string \<times> pyval \<Rightarrow> error + string \<times> pyval" where
  "torrent_transfer loads sub_downloaders kv =
     (let plugin_key = fst kv; plugin_value = snd kv;
          keys = split_char (CHR ''-'') plugin_key
      in and_then (item keys 0) (\<lambda>k0.
         and_then (same_index (PStr k0) sub_downloaders) (\<lambda>hit.
         and_then (if hit
                   then and_then (item sub_downloaders 1) (\<lambda>d1. Inr (py_replace plugin_key k0 d1))
                   else Inr plugin_key) (\<lambda>plugin_key'.
         and_then (decode loads plugin_value) (\<lambda>plugin_value'.
         and_then (rewrite_field ''to_download'' sub_downloaders plugin_value') (\<lambda>plugin_value''.
           Inr (plugin_key', plugin_value'')))))))"

text \<open>
  The branch for \<open>IYUUAutoSeed\<close>: the value is decoded and every element of it has
  its \<open>downloader\<close> rewritten. Iterating a dict yields its keys and iterating a
  \<open>str\<close> its characters, neither of which has \<open>get\<close>; the other values are
  not iterable.
\<close>

definition auto_seed ::
  "(string \<Rightarrow> pyval option) \<Rightarrow> string list \<Rightarrow> pyval \<Rightarrow> error + pyval" where
  "auto_seed loads sub_downloaders plugin_value =
     and_then (decode loads plugin_value) (\<lambda>plugin_value'.
       case plugin_value' of
         PList values \<Rightarrow>
           and_then (map_result (rewrite_field ''downloader'' sub_downloaders) values)
             (\<lambda>values'. Inr (PList values'))
       | PDict kvs \<Rightarrow> if kvs = [] then Inr plugin_value' else Inl AttributeError
       | PStr text \<Rightarrow> if text = [] then Inr plugin_value' else Inl AttributeError
       | _ \<Rightarrow> Inl TypeError)"

text \<open>The body of \<open>for downloader in downloaders:\<close>.\<close>

definition downloader_step ::
  "(string \<Rightarrow> pyval option) \<Rightarrow> string \<Rightarrow> string \<Rightarrow> string \<times> pyval \<Rightarrow> error + string \<times> pyval" where
  "downloader_step loads plugin_id downloader' kv =
     (let sub_downloaders = split_char (CHR '':'') downloader'
      in and_then (if plugin_id = ''TorrentTransfer''
                   then torrent_transfer loads sub_downloaders kv
                   else Inr kv) (\<lambda>kv'.
           if plugin_id = ''IYUUAutoSeed''
           then and_then (auto_seed loads sub_downloaders (snd kv')) (\<lambda>v. Inr (fst kv', v))
           else Inr kv'))"

definition remap_plugin ::
  "(string \<Rightarrow> pyval option) \<Rightarrow> string option \<Rightarrow> string \<Rightarrow> string \<times> pyval \<Rightarrow> error + string \<times> pyval" where
  "remap_plugin loads downloader_text plugin_id kv =
     (if truthy downloader_text
      then for_each (downloader_step loads plugin_id)
             (split_char (CHR 0x0A) (the downloader_text)) kv
      else Inr kv)"

fun plugin_body :: "(string \<Rightarrow> pyval option) \<Rightarrow> plugin_row \<Rightarrow> state \<Rightarrow> outcome" where
  "plugin_body loads (rowid, plugin_id, plugin_key, plugin_value) s =
     (case remap_plugin loads (downloader (attrs s)) plugin_id (plugin_key, plugin_value) of
        Inl e \<Rightarrow> Raised e s
      | Inr (plugin_key', plugin_value') \<Rightarrow>
          Returned (s\<lparr>plugindata := plugindata s @
                       [Plugin_save plugin_id plugin_key' plugin_value']\<rparr>))"

definition sync_plugin_history ::
  "(string \<Rightarrow> pyval option) \<Rightarrow> plugin_row list option \<Rightarrow> state \<Rightarrow> outcome" where
  "sync_plugin_history loads plugin_history s =
     (let s1 = logger INFO (Sync_begins Plugins) s;
          s2 = (if clear (attrs s1)
                then (logger INFO (Store_emptied Plugins) s1)
                       \<lparr>plugindata := plugindata s1 @ [Plugin_truncate]\<rparr>
                else s1)
      in then_run (iterate (plugin_body loads) plugin_history s2)
           (\<lambda>s3. Returned (logger INFO (Sync_ended Plugins) s3)))"

section \<open>Download history\<close>

text \<open>
  \<open>if str(msite) == str(sub_sites[0]): msite = str(sub_sites[1])\<close>; the second
  field is read only when the first matched.
\<close>

definition site_step :: "string \<Rightarrow> string option \<Rightarrow> error + string option" where
  "site_step site' msite =
     (let sub_sites = split_char (CHR '':'') site'
      in and_then (item sub_sites 0) (\<lambda>s0.
           if py_str msite = s0
           then and_then (item sub_sites 1) (\<lambda>s1. Inr (Some s1))
           else Inr msite))"

definition remap_site :: "string option \<Rightarrow> string option \<Rightarrow> error + string option" where
  "remap_site site_text msite =
     (if truthy site_text
      then for_each site_step (split_char (CHR 0x0A) (the site_text)) msite
      else Inr msite)"

text \<open>\<open>os.path.basename(mpath)\<close> needs a path: \<open>None\<close> raises \<open>TypeError\<close>.\<close>

fun download_body :: "download_row \<Rightarrow> state \<Rightarrow> outcome" where
  "download_body (mpath, mtype, mtitle, myear, mtmdbid, mseasons, mepisodes, mimages,
      mdownload_hash, mtorrent, mdesc, msite) s =
     (case remap_site (site (attrs s)) msite of
        Inl e \<Rightarrow> Raised e s
      | Inr msite' \<Rightarrow>
          (case mpath of
             None \<Rightarrow> Raised TypeError s
           | Some p \<Rightarrow>
               Returned (s\<lparr>downloadhistory := downloadhistory s @
                  [Download_add \<lparr>dh_path = basename p, dh_type = mtype, dh_title = mtitle,
                     dh_year = myear, dh_tmdbid = mtmdbid, dh_seasons = mseasons,
                     dh_episodes = mepisodes, dh_image = mimages,
                     dh_download_hash = mdownload_hash, dh_torrent_name = mtorrent,
                     dh_torrent_description = mdesc, dh_torrent_site = msite'\<rparr>]\<rparr>)))"

definition sync_download_history :: "download_row list option \<Rightarrow> state \<Rightarrow> outcome" where
  "sync_download_history download_history s =
     (let s1 = logger INFO (Sync_begins Downloads) s;
          s2 = (if clear (attrs s1)
                then (logger INFO (Store_emptied Downloads) s1)
                       \<lparr>downloadhistory := downloadhistory s1 @ [Download_truncate]\<rparr>
                else s1)
      in then_run (iterate download_body download_history s2)
           (\<lambda>s3. Returned (logger INFO (Sync_ended Downloads) s3)))"

section \<open>The coordinator\<close>

definition update_config :: "config \<Rightarrow> state \<Rightarrow> state" where
  "update_config c s = s\<lparr>systemconfig := Some c\<rparr>"

text \<open>
  The three blocks of \<open>init_plugin\<close>, each behind its switch:
  \<open>if self._transfer: transfer_history = self.get_nt_transfer_history(cursor);
  self.sync_transfer_history(transfer_history)\<close>, and likewise for the plugin and the
  download records.
\<close>

definition import_transfer :: "nt_db \<Rightarrow> state \<Rightarrow> outcome" where
  "import_transfer db s =
     (if transfer (attrs s)
      then (case get_nt_transfer_history db s of
              (transfer_history, s1) \<Rightarrow> sync_transfer_history transfer_history s1)
      else Returned s)"

definition import_plugin :: "(string \<Rightarrow> pyval option) \<Rightarrow> nt_db \<Rightarrow> state \<Rightarrow> outcome" where
  "import_plugin loads db s =
     (if plugin (attrs s)
      then (case get_nt_plugin_history db s of
              (plugin_history, s1) \<Rightarrow> sync_plugin_history loads plugin_history s1)
      else Returned s)"

definition import_download :: "nt_db \<Rightarrow> state \<Rightarrow> outcome" where
  "import_download db s =
     (if download (attrs s)
      then (case get_nt_download_history db s of
              (download_history, s1) \<Rightarrow> sync_download_history download_history s1)
      else Returned s)"

text \<open>
  \<open>init_plugin\<close>: the attributes are set from the configuration; with a database
  path and at least one switch on, the enabled categories run in the order transfer,
  plugin, download, and the configuration is then persisted with all four switches off.
  Nothing catches an exception, so the first one raised leaves \<open>init_plugin\<close>.
  An absent or empty configuration (\<open>None\<close>) changes nothing. Opening the file
  at \<open>nt_db_path\<close> is outside the model: \<open>db\<close> is the database found there.
\<close>

definition init_plugin ::
  "(string \<Rightarrow> pyval option) \<Rightarrow> nt_db \<Rightarrow> config option \<Rightarrow> state \<Rightarrow> outcome" where
  "init_plugin loads db config' s =
     (case config' of
        None \<Rightarrow> Returned s
      | Some c \<Rightarrow>
          (let s0 = s\<lparr>attrs := c\<rparr>
           in if truthy (nt_db_path (attrs s0)) \<and>
                 (transfer (attrs s0) \<or> plugin (attrs s0) \<or> download (attrs s0))
              then
                then_run (import_transfer db s0) (\<lambda>s1.
                then_run (import_plugin loads db s1) (\<lambda>s2.
                then_run (import_download db s2) (\<lambda>s3.
                  Returned (update_config
                    \<lparr>clear = False, nt_db_path = nt_db_path (attrs s3), path = path (attrs s3),
                     site = site (attrs s3), transfer = False, plugin = False,
                     downloader = downloader (attrs s3), download = False\<rparr> s3))))
              else Returned s0))"

text \<open>\<open>get_state\<close> reads the three switches of the plugin object.\<close>

definition get_state :: "state \<Rightarrow> bool" where
  "get_state s = (if transfer (attrs s) \<or> plugin (attrs s) \<or> download (attrs s) then True else False)"

section \<open>Notions used in the statements\<close>

text \<open>A transfer row is complete when both of its paths pass the test \<open>not msrc or not mdest\<close>.\<close>

definition complete :: "transfer_row \<Rightarrow> bool" where
  "complete history = (truthy (fst history) \<and> truthy (fst (snd history)))"

text \<open>
  A row of \<open>TRANSFER_HISTORY\<close> for a film, and the row the transfer query makes of
  it when no download row is joined to it, for the examples; only the paths vary.
\<close>

definition film :: "string option \<Rightarrow> string option \<Rightarrow> string option \<Rightarrow> string option \<Rightarrow>
    transfer_table_row" where
  "film SOURCE_PATH SOURCE_FILENAME DEST_PATH DEST_FILENAME =
     (SOURCE_PATH, SOURCE_FILENAME, DEST_PATH, DEST_FILENAME, PStr hard_link_label, PStr ''movie'',
      PNone, PStr ''Up'', PStr ''2009'', PInt 14160, None, PStr ''2023-01-01 10:00:00'')"

definition film_row :: "string option \<Rightarrow> string option \<Rightarrow> transfer_row" where
  "film_row msrc mdest =
     (msrc, mdest, PStr ''link'', PStr ''movie'', PNone, PStr ''Up'', PStr ''2009'', PInt 14160,
      PNone, PNone, PNone, PNone, PStr ''2023-01-01 10:00:00'')"


text \<open>The number of \<open>add\<close> calls a transfer store has received.\<close>

definition adds :: "transfer_call list \<Rightarrow> nat" where
  "adds calls = length (filter (\<lambda>call. call \<noteq> Transfer_truncate) calls)"

text \<open>
  The replacement as the specification words it, for comparison with \<open>py_replace\<close>:
  "replaces the first occurrence of a matched source prefix with its destination". Only the
  leftmost occurrence of \<open>old\<close> is replaced.
\<close>

fun spec_replace_first :: "string \<Rightarrow> string \<Rightarrow> string \<Rightarrow> string" where
  "spec_replace_first [] old new = (if old = [] then new else [])"
| "spec_replace_first (c # cs) old new =
     (if prefix old (c # cs) then new @ drop (length old) (c # cs)
      else c # spec_replace_first cs old new)"

text \<open>Every backslash becomes a slash.\<close>

definition slashes :: "string \<Rightarrow> string" where
  "slashes s = map (\<lambda>c. if c = CHR 0x5C then CHR ''/'' else c) s"

text \<open>
  \<open>json.loads\<close> on the texts of the examples: the two documents below are decoded
  as shown; every other text, such as \<open>{bad\<close>, is rejected.
\<close>

definition example_loads :: "string \<Rightarrow> pyval option" where
  "example_loads =
     map_of
       [(''{\"to_download\": 1}'', PDict [(''to_download'', PInt 1)]),
        (''[{\"downloader\": \"2\"}]'', PList [PDict [(''downloader'', PStr ''2'')]])]"

text \<open>
  A call to the download store that is a \<open>truncate\<close>, or an \<open>add\<close> whose path
  is the base name of a \<open>SAVE_PATH\<close> of the table that is not \<open>NULL\<close>.
\<close>

fun written_from :: "download_history_row list \<Rightarrow> download_call \<Rightarrow> bool" where
  "written_from table Download_truncate = True"
| "written_from table (Download_add kwargs) =
     (dh_path kwargs \<in> set (map basename (List.map_filter fst table)))"

section \<open>A new plugin object\<close>

text \<open>
  The class attributes are all \<open>None\<close>; nothing has been written or logged yet.
\<close>

definition fresh :: state where
  "fresh =
     \<lparr>attrs = \<lparr>clear = False, nt_db_path = None, path = None, site = None, transfer = False,
               plugin = False, downloader = None, download = False\<rparr>,
      transferhistory = [], plugindata = [], downloadhistory = [], systemconfig = None,
      log = []\<rparr>"

section \<open>What each step leaves alone\<close>

lemma logger_frame [simp]:
  "attrs (logger l m s) = attrs s"
  "transferhistory (logger l m s) = transferhistory s"
  "plugindata (logger l m s) = plugindata s"
  "downloadhistory (logger l m s) = downloadhistory s"
  "systemconfig (logger l m s) = systemconfig s"
  by (simp_all add: logger_def)

lemma final_then_run:
  "final (then_run r f) = (case r of Returned s \<Rightarrow> final (f s) | Raised e s \<Rightarrow> s)"
  by (cases r) simp_all

lemma frame_then_logged:
  assumes "\<And>s. f (logger l m s) = f s"
  shows "f (final (then_run r (\<lambda>s. Returned (logger l m s)))) = f (final r)"
  by (cases r) (simp_all add: assms)

lemma for_rows_frame:
  assumes "\<And>r s. f (final (body r s)) = f s"
  shows "f (final (for_rows body rows s)) = f s"
proof (induction rows arbitrary: s)
  case Nil
  show ?case by simp
next
  case (Cons r rows)
  show ?case
  proof (cases "body r s")
    case (Returned s')
    with assms [of r s] Cons.IH [of s'] show ?thesis by simp
  next
    case (Raised e s')
    with assms [of r s] show ?thesis by simp
  qed
qed

lemma iterate_frame:
  assumes "\<And>r s. f (final (body r s)) = f s"
  shows "f (final (iterate body rows s)) = f s"
proof (cases rows)
  case None
  then show ?thesis by simp
next
  case (Some rs)
  then show ?thesis using for_rows_frame [of f body rs s, OF assms] by simp
qed

lemma sync_transfer_history_frame:
  assumes lg: "\<And>l m s. f (logger l m s) = f s"
    and up: "\<And>g s. f (transferhistory_update g s) = f s"
  shows "f (final (sync_transfer_history h s)) = f s"
proof -
  have body: "f (final (transfer_body r t)) = f t" for r t
    by (simp add: transfer_body_def Let_def lg up split: sum.split prod.split)
  have it: "f (final (iterate transfer_body h t)) = f t" for t
    by (rule iterate_frame [of f transfer_body, OF body])
  show ?thesis
    unfolding sync_transfer_history_def Let_def
    by (simp only: frame_then_logged [of f, OF lg] it) (simp add: lg up)
qed

lemma sync_plugin_history_frame:
  assumes lg: "\<And>l m s. f (logger l m s) = f s"
    and up: "\<And>g s. f (plugindata_update g s) = f s"
  shows "f (final (sync_plugin_history loads h s)) = f s"
proof -
  have body: "f (final (plugin_body loads r t)) = f t" for r t
    by (cases r) (simp add: lg up split: sum.split prod.split)
  have it: "f (final (iterate (plugin_body loads) h t)) = f t" for t
    by (rule iterate_frame [of f "plugin_body loads", OF body])
  show ?thesis
    unfolding sync_plugin_history_def Let_def
    by (simp only: frame_then_logged [of f, OF lg] it) (simp add: lg up)
qed

lemma sync_download_history_frame:
  assumes lg: "\<And>l m s. f (logger l m s) = f s"
    and up: "\<And>g s. f (downloadhistory_update g s) = f s"
  shows "f (final (sync_download_history h s)) = f s"
proof -
  have body: "f (final (download_body r t)) = f t" for r t
    by (cases "(r, t)" rule: download_body.cases)
      (simp add: lg up split: sum.split prod.split option.split)
  have it: "f (final (iterate download_body h t)) = f t" for t
    by (rule iterate_frame [of f download_body, OF body])
  show ?thesis
    unfolding sync_download_history_def Let_def
    by (simp only: frame_then_logged [of f, OF lg] it) (simp add: lg up)
qed

lemma get_nt_frame:
  assumes lg: "\<And>l m s. f (logger l m s) = f s"
  shows "f (snd (get_nt_transfer_history db s)) = f s"
    and "f (snd (get_nt_plugin_history db s)) = f s"
    and "f (snd (get_nt_download_history db s)) = f s"
  by (simp_all add: get_nt_transfer_history_def get_nt_plugin_history_def
      get_nt_download_history_def Let_def lg)

lemma then_run_frame:
  assumes "f (final r) = a" and "\<And>s. f s = a \<Longrightarrow> f (final (g s)) = a"
  shows "f (final (then_run r g)) = a"
  using assms by (cases r) simp_all

lemma import_transfer_frame:
  assumes lg: "\<And>l m s. f (logger l m s) = f s"
    and up: "\<And>g s. f (transferhistory_update g s) = f s"
  shows "f (final (import_transfer db s)) = f s"
proof (cases "get_nt_transfer_history db s")
  case (Pair h s1)
  then have "f s1 = f s" using get_nt_frame(1) [of f db s, OF lg] by simp
  with Pair show ?thesis
    using sync_transfer_history_frame [of f h s1, OF lg up] by (simp add: import_transfer_def)
qed

lemma import_plugin_frame:
  assumes lg: "\<And>l m s. f (logger l m s) = f s"
    and up: "\<And>g s. f (plugindata_update g s) = f s"
  shows "f (final (import_plugin loads db s)) = f s"
proof (cases "get_nt_plugin_history db s")
  case (Pair h s1)
  then have "f s1 = f s" using get_nt_frame(2) [of f db s, OF lg] by simp
  with Pair show ?thesis
    using sync_plugin_history_frame [where f = f and loads = loads and h = h and s = s1, OF lg up]
    by (simp add: import_plugin_def)
qed

lemma import_download_frame:
  assumes lg: "\<And>l m s. f (logger l m s) = f s"
    and up: "\<And>g s. f (downloadhistory_update g s) = f s"
  shows "f (final (import_download db s)) = f s"
proof (cases "get_nt_download_history db s")
  case (Pair h s1)
  then have "f s1 = f s" using get_nt_frame(3) [of f db s, OF lg] by simp
  with Pair show ?thesis
    using sync_download_history_frame [of f h s1, OF lg up] by (simp add: import_download_def)
qed

lemma import_attrs [simp]:
  "attrs (final (import_transfer db s)) = attrs s"
  "attrs (final (import_plugin loads db s)) = attrs s"
  "attrs (final (import_download db s)) = attrs s"
  by (simp_all add: import_transfer_frame [where f = attrs] import_plugin_frame [where f = attrs]
      import_download_frame [where f = attrs])

lemma init_plugin_idle:
  assumes "\<not> (truthy (nt_db_path c) \<and> (transfer c \<or> plugin c \<or> download c))"
  shows "init_plugin loads db (Some c) s = Returned (s\<lparr>attrs := c\<rparr>)"
  using assms by (auto simp: init_plugin_def Let_def)

lemma init_plugin_run:
  assumes "truthy (nt_db_path c)" and "transfer c \<or> plugin c \<or> download c"
  shows "init_plugin loads db (Some c) s =
     then_run (import_transfer db (s\<lparr>attrs := c\<rparr>)) (\<lambda>s1.
     then_run (import_plugin loads db s1) (\<lambda>s2.
     then_run (import_download db s2) (\<lambda>s3.
       Returned (update_config
         \<lparr>clear = False, nt_db_path = nt_db_path (attrs s3), path = path (attrs s3),
          site = site (attrs s3), transfer = False, plugin = False,
          downloader = downloader (attrs s3), download = False\<rparr> s3))))"
  using assms by (auto simp: init_plugin_def Let_def)

lemma init_plugin_attrs:
  "attrs (final (init_plugin loads db (Some c) s)) = c"
proof (cases "truthy (nt_db_path c) \<and> (transfer c \<or> plugin c \<or> download c)")
  case False
  show ?thesis unfolding init_plugin_idle [OF False] by simp
next
  case True
  then have run: "truthy (nt_db_path c)" "transfer c \<or> plugin c \<or> download c" by simp_all
  show ?thesis
    unfolding init_plugin_run [OF run]
    apply (rule then_run_frame [where f = attrs])
     apply simp
    apply (rule then_run_frame [where f = attrs])
     apply simp
    apply (rule then_run_frame [where f = attrs])
     apply simp
    apply (simp add: update_config_def)
    done
qed

section \<open>What the transfer import writes\<close>

lemma final_then_run_frame:
  assumes "\<And>t. f (final (g t)) = f t"
  shows "f (final (then_run r g)) = f (final r)"
  using assms by (cases r) simp_all

lemma transfer_body_skip:
  "\<not> complete r \<Longrightarrow> transfer_body r s = Returned s"
  by (auto simp: transfer_body_def complete_def Let_def)

lemma transfer_body_no_rules:
  assumes "complete r" and "\<not> truthy (path (attrs s))"
  shows "transfer_body r s =
     Returned (logger DEBUG (synced r)
       (s\<lparr>transferhistory := transferhistory s @
          [Transfer_add (transfer_kwargs (the (fst r)) (the (fst (snd r))) r)]\<rparr>))"
  using assms by (simp add: transfer_body_def complete_def Let_def remap_paths_def)

lemma for_rows_transfer_no_rules:
  assumes "\<not> truthy (path (attrs s))"
  shows "\<exists>s'. for_rows transfer_body rows s = Returned s' \<and> attrs s' = attrs s \<and>
     transferhistory s' = transferhistory s @
       map (\<lambda>r. Transfer_add (transfer_kwargs (the (fst r)) (the (fst (snd r))) r))
         (filter complete rows)"
  using assms
proof (induction rows arbitrary: s)
  case Nil
  then show ?case by simp
next
  case (Cons r rows)
  show ?case
  proof (cases "complete r")
    case False
    with Cons show ?thesis by (simp add: transfer_body_skip)
  next
    case True
    let ?t = "logger DEBUG (synced r)
       (s\<lparr>transferhistory := transferhistory s @
          [Transfer_add (transfer_kwargs (the (fst r)) (the (fst (snd r))) r)]\<rparr>)"
    have "\<not> truthy (path (attrs ?t))" using Cons.prems by simp
    from Cons.IH [OF this] obtain s' where
      "for_rows transfer_body rows ?t = Returned s'" "attrs s' = attrs ?t"
      "transferhistory s' = transferhistory ?t @
         map (\<lambda>r. Transfer_add (transfer_kwargs (the (fst r)) (the (fst (snd r))) r))
           (filter complete rows)" by blast
    with True Cons.prems show ?thesis
      by (simp add: transfer_body_no_rules)
  qed
qed

lemma sync_transfer_no_rules:
  assumes "\<not> truthy (path (attrs s))"
  shows "transferhistory (final (sync_transfer_history (Some rows) s)) =
     transferhistory s @ (if clear (attrs s) then [Transfer_truncate] else []) @
       map (\<lambda>r. Transfer_add (transfer_kwargs (the (fst r)) (the (fst (snd r))) r))
         (filter complete rows)"
proof -
  let ?s2 = "if clear (attrs s)
     then (logger INFO (Store_emptied Transfers) (logger INFO (Sync_begins Transfers) s))
            \<lparr>transferhistory := transferhistory s @ [Transfer_truncate]\<rparr>
     else logger INFO (Sync_begins Transfers) s"
  have "\<not> truthy (path (attrs ?s2))" using assms by simp
  from for_rows_transfer_no_rules [OF this, of rows] obtain s' where
    s': "for_rows transfer_body rows ?s2 = Returned s'"
    "transferhistory s' = transferhistory ?s2 @
       map (\<lambda>r. Transfer_add (transfer_kwargs (the (fst r)) (the (fst (snd r))) r))
         (filter complete rows)" by blast
  have "sync_transfer_history (Some rows) s =
      then_run (for_rows transfer_body rows ?s2) (\<lambda>s3. Returned (logger INFO (Sync_ended Transfers) s3))"
    by (simp add: sync_transfer_history_def Let_def)
  with s' show ?thesis by simp
qed

lemma init_plugin_transferhistory:
  assumes "truthy (nt_db_path c)" and "transfer c \<or> plugin c \<or> download c"
  shows "transferhistory (final (init_plugin loads db (Some c) s)) =
     transferhistory (final (import_transfer db (s\<lparr>attrs := c\<rparr>)))"
proof -
  have d: "transferhistory (final (then_run (import_download db t) (\<lambda>s3.
       Returned (update_config
         \<lparr>clear = False, nt_db_path = nt_db_path (attrs s3), path = path (attrs s3),
          site = site (attrs s3), transfer = False, plugin = False,
          downloader = downloader (attrs s3), download = False\<rparr> s3)))) = transferhistory t" for t
    using import_download_frame [where f = transferhistory and db = db and s = t]
    by (cases "import_download db t") (simp_all add: update_config_def)
  have p: "transferhistory (final (then_run (import_plugin loads db t) (\<lambda>s2.
       then_run (import_download db s2) (\<lambda>s3.
       Returned (update_config
         \<lparr>clear = False, nt_db_path = nt_db_path (attrs s3), path = path (attrs s3),
          site = site (attrs s3), transfer = False, plugin = False,
          downloader = downloader (attrs s3), download = False\<rparr> s3))))) = transferhistory t" for t
    using import_plugin_frame [where f = transferhistory and db = db and s = t and loads = loads] d
    by (cases "import_plugin loads db t") simp_all
  show ?thesis
    unfolding init_plugin_run [OF assms]
    by (rule final_then_run_frame [where f = transferhistory]) (rule p)
qed

section \<open>The plugin state\<close>

text \<open>
  Claim C9. \<open>get_state\<close> is true exactly when one of the switches \<open>transfer\<close>,
  \<open>plugin\<close>, \<open>download\<close> of the plugin object is on; and after
  \<open>init_plugin\<close> has been given a configuration, whether it returned or raised,
  these are the three switches of that configuration. The database path, the three
  rule texts and the \<open>clear\<close> switch do not occur in the result.
\<close>

theorem get_state_reads_switches:
  "get_state s = (transfer (attrs s) \<or> plugin (attrs s) \<or> download (attrs s)) \<and>
   get_state (final (init_plugin loads db (Some c) s)) = (transfer c \<or> plugin c \<or> download c)"
  by (simp add: get_state_def init_plugin_attrs)

theorem get_state_reads_switches_witness:
  "get_state (final (init_plugin (\<lambda>text. None)
       \<lparr>TRANSFER_HISTORY = [], PLUGIN_HISTORY = [], DOWNLOAD_HISTORY = [], bare_row = hd\<rparr>
       (Some \<lparr>clear = True, nt_db_path = Some ''/nt/user.db'', path = Some ''/a:/b'',
               site = None, transfer = False, plugin = True, downloader = None,
               download = False\<rparr>) fresh))
   \<and> \<not> get_state (final (init_plugin (\<lambda>text. None)
       \<lparr>TRANSFER_HISTORY = [], PLUGIN_HISTORY = [], DOWNLOAD_HISTORY = [], bare_row = hd\<rparr>
       (Some \<lparr>clear = True, nt_db_path = Some ''/nt/user.db'', path = Some ''/a:/b'',
               site = None, transfer = False, plugin = False, downloader = None,
               download = False\<rparr>) fresh))"
  using get_state_reads_switches [of fresh "\<lambda>text. None"
      "\<lparr>TRANSFER_HISTORY = [], PLUGIN_HISTORY = [], DOWNLOAD_HISTORY = [], bare_row = hd\<rparr>"
      "\<lparr>clear = True, nt_db_path = Some ''/nt/user.db'', path = Some ''/a:/b'',
        site = None, transfer = False, plugin = True, downloader = None, download = False\<rparr>"]
    get_state_reads_switches [of fresh "\<lambda>text. None"
      "\<lparr>TRANSFER_HISTORY = [], PLUGIN_HISTORY = [], DOWNLOAD_HISTORY = [], bare_row = hd\<rparr>"
      "\<lparr>clear = True, nt_db_path = Some ''/nt/user.db'', path = Some ''/a:/b'',
        site = None, transfer = False, plugin = False, downloader = None, download = False\<rparr>"]
  by simp


section \<open>Which transfer rows are written\<close>

lemma split_char_length:
  "length (split_char sep s) = Suc (length (filter (\<lambda>c. c = sep) s))"
  by (induction s) (auto split: list.split)









lemmas run_defs = init_plugin_def import_transfer_def import_plugin_def import_download_def
  get_nt_transfer_history_def get_nt_plugin_history_def get_nt_download_history_def
  sync_transfer_history_def sync_plugin_history_def sync_download_history_def
  transfer_body_def remap_paths_def path_step_def item_def and_then_def logger_def
  update_config_def fresh_def film_row_def film_def transfer_query_def joined_def matches_def
  grouped_downloads_def mode_of_def type_of_def seasons_of_def episodes_of_def Let_def




section \<open>Clearing and importing the transfer history\<close>

text \<open>
  The rows the loop of \<open>sync_transfer_history\<close> works through are those of the
  transfer query. Every row the query makes of a row \<open>t\<close> of \<open>TRANSFER_HISTORY\<close>
  carries the paths \<open>SOURCE_PATH || '/' || SOURCE_FILENAME\<close> and
  \<open>DEST_PATH || '/' || DEST_FILENAME\<close> of \<open>t\<close>; such a path is \<open>NULL\<close> when one
  of its two columns is, and holds a slash otherwise, so that it is never the empty string.
  The join makes one row of \<open>t\<close> when at most one row of the grouped download history
  has the title and type of \<open>t\<close>, and one row for each such download row otherwise.
\<close>

lemma paths_of_transfer_select:
  "fst (transfer_select t d) = transfer_src t"
  "fst (snd (transfer_select t d)) = transfer_dest t"
  by (cases "(t, d)" rule: transfer_select.cases; simp)+

lemma paths_of_joined:
  assumes "r \<in> set (joined db t)"
  shows "fst r = transfer_src t \<and> fst (snd r) = transfer_dest t"
  using assms by (auto simp: joined_def paths_of_transfer_select split: if_splits)

lemma truthy_concat_path:
  "truthy (concat_path X Y) \<longleftrightarrow> concat_path X Y \<noteq> None"
  by (cases "(X, Y)" rule: concat_path.cases) simp_all

lemma truthy_transfer_paths:
  "truthy (transfer_src t) \<longleftrightarrow> transfer_src t \<noteq> None"
  "truthy (transfer_dest t) \<longleftrightarrow> transfer_dest t \<noteq> None"
  by (cases t rule: transfer_src.cases; simp add: truthy_concat_path)+

lemma complete_joined:
  assumes "r \<in> set (joined db t)"
  shows "complete r \<longleftrightarrow> transfer_src t \<noteq> None \<and> transfer_dest t \<noteq> None"
  using paths_of_joined [OF assms] by (simp add: complete_def truthy_transfer_paths)

lemma joined_skipped:
  assumes "transfer_src t = None \<or> transfer_dest t = None"
  shows "filter complete (joined db t) = []"
  using assms complete_joined [of _ db t] by (auto simp: filter_empty_conv)

lemma joined_kept:
  assumes "transfer_src t \<noteq> None" and "transfer_dest t \<noteq> None"
  shows "filter complete (joined db t) = joined db t"
  using assms complete_joined [of _ db t] by (auto simp: filter_id_conv)

lemma joined_single:
  assumes "length (matches db t) \<le> 1"
  shows "\<exists>r. joined db t = [r]"
proof (cases "matches db t")
  case Nil
  then have "joined db t = [transfer_select t None]" by (simp add: joined_def)
  then show ?thesis ..
next
  case (Cons d ds)
  with assms have "ds = []" by simp
  with Cons have "joined db t = [transfer_select t (Some d)]" by (simp add: joined_def)
  then show ?thesis ..
qed

lemma transfer_query_nonempty:
  "TRANSFER_HISTORY db \<noteq> [] \<Longrightarrow> transfer_query db \<noteq> []"
  by (cases "TRANSFER_HISTORY db") (auto simp: transfer_query_def joined_def)

lemma init_plugin_transfer_calls:
  assumes "clear c" and "transfer c" and "truthy (nt_db_path c)" and "\<not> truthy (path c)"
    and "TRANSFER_HISTORY db \<noteq> []"
  shows "transferhistory (final (init_plugin loads db (Some c) s)) =
     transferhistory s @ [Transfer_truncate] @
       map (\<lambda>r. Transfer_add (transfer_kwargs (the (fst r)) (the (fst (snd r))) r))
         (filter complete (transfer_query db))"
proof -
  let ?s0 = "s\<lparr>attrs := c\<rparr>"
  let ?rows = "transfer_query db"
  have ne: "?rows \<noteq> []" using assms(5) by (rule transfer_query_nonempty)
  have "import_transfer db ?s0 =
      sync_transfer_history (Some ?rows) (logger INFO (Fetched Transfers (length ?rows)) ?s0)"
    using \<open>transfer c\<close> ne
    by (simp add: import_transfer_def get_nt_transfer_history_def Let_def)
  moreover have "\<not> truthy (path (attrs (logger INFO (Fetched Transfers (length ?rows)) ?s0)))"
    using \<open>\<not> truthy (path c)\<close> by simp
  ultimately have calls: "transferhistory (final (import_transfer db ?s0)) =
      transferhistory s @ [Transfer_truncate] @
        map (\<lambda>r. Transfer_add (transfer_kwargs (the (fst r)) (the (fst (snd r))) r))
          (filter complete ?rows)"
    using \<open>clear c\<close> by (simp add: sync_transfer_no_rules)
  have "transferhistory (final (init_plugin loads db (Some c) s)) =
      transferhistory (final (import_transfer db ?s0))"
    using \<open>truthy (nt_db_path c)\<close> \<open>transfer c\<close> by (simp add: init_plugin_transferhistory)
  with calls show ?thesis by simp
qed

text \<open>
  Claim C5 says that with exactly three transfer rows in the source, one of them with an
  empty destination path, \<open>clear\<close> on and no path rules, the transfer store receives
  one \<open>truncate\<close> and then exactly two \<open>add\<close> calls. When the empty destination
  is the empty string in both \<open>DEST_PATH\<close> and \<open>DEST_FILENAME\<close>, the query gives
  the row the destination \<open>/\<close>, which the test \<open>not mdest\<close> lets through: the store
  receives \<open>truncate\<close> and three \<open>add\<close> calls. And when the destination is
  \<open>NULL\<close> but \<open>DOWNLOAD_HISTORY\<close> holds two rows with the title and type of the
  two other transfer rows and different \<open>TMDBID\<close>, the join returns each of these twice:
  the store receives four \<open>add\<close> calls.
\<close>

theorem empty_text_destination_is_written:
  "transferhistory (final (init_plugin (\<lambda>text. None)
      \<lparr>TRANSFER_HISTORY =
         [film (Some ''/nt'') (Some ''a.mkv'') (Some ''/lib'') (Some ''a.mkv''),
          film (Some ''/nt'') (Some ''b.mkv'') (Some []) (Some []),
          film (Some ''/nt'') (Some ''c.mkv'') (Some ''/lib'') (Some ''c.mkv'')],
       PLUGIN_HISTORY = [], DOWNLOAD_HISTORY = [], bare_row = hd\<rparr>
      (Some \<lparr>clear = True, nt_db_path = Some ''/nt/user.db'', path = None, site = None,
              transfer = True, plugin = False, downloader = None, download = False\<rparr>)
      fresh)) =
   [Transfer_truncate,
    Transfer_add (transfer_kwargs ''/nt/a.mkv'' ''/lib/a.mkv''
      (film_row (Some ''/nt/a.mkv'') (Some ''/lib/a.mkv''))),
    Transfer_add (transfer_kwargs ''/nt/b.mkv'' ''/''
      (film_row (Some ''/nt/b.mkv'') (Some ''/''))),
    Transfer_add (transfer_kwargs ''/nt/c.mkv'' ''/lib/c.mkv''
      (film_row (Some ''/nt/c.mkv'') (Some ''/lib/c.mkv'')))] \<and>
   adds (transferhistory (final (init_plugin (\<lambda>text. None)
      \<lparr>TRANSFER_HISTORY =
         [film (Some ''/nt'') (Some ''a.mkv'') (Some ''/lib'') (Some ''a.mkv''),
          film (Some ''/nt'') (Some ''b.mkv'') None None,
          film (Some ''/nt'') (Some ''c.mkv'') (Some ''/lib'') (Some ''c.mkv'')],
       PLUGIN_HISTORY = [],
       DOWNLOAD_HISTORY =
         [(Some ''/downloads'', PStr ''movie'', PStr ''Up'', PStr ''2009'', PInt 14160, None,
           PStr ''poster-a'', PStr ''hash-a'', PStr ''Up.2009.1080p'', PNone, Some ''site-a''),
          (Some ''/downloads'', PStr ''movie'', PStr ''Up'', PStr ''2009'', PNone, None,
           PStr ''poster-b'', PStr ''hash-b'', PStr ''Up.2009.2160p'', PNone, Some ''site-b'')],
       bare_row = hd\<rparr>
      (Some \<lparr>clear = True, nt_db_path = Some ''/nt/user.db'', path = None, site = None,
              transfer = True, plugin = False, downloader = None, download = False\<rparr>)
      fresh))) = 4"
  by (simp add: run_defs complete_def sql_equal_def adds_def anime_label_def)

text \<open>
  Claim C5 as amended. Let \<open>clear\<close> and \<open>transfer\<close> be on, the database path set
  and no path map configured. Let \<open>TRANSFER_HISTORY\<close> hold exactly three rows: one whose
  \<open>DEST_PATH\<close> or \<open>DEST_FILENAME\<close> is \<open>NULL\<close>, and two whose four path columns
  are all not \<open>NULL\<close> and each of which is joined to at most one row of the grouped
  download history. Then the query makes one row of each of the two, and the transfer store
  receives one \<open>truncate\<close> and then exactly two \<open>add\<close> calls, for these two rows in
  the order of the table and with the paths the query gave them. This holds whatever the
  later categories do.
\<close>

theorem clear_then_two_appends:
  assumes "clear c" and "transfer c" and "truthy (nt_db_path c)" and "\<not> truthy (path c)"
    and table: "TRANSFER_HISTORY db = before @ t # after"
    and others: "before @ after = [t_a, t_b]"
    and null: "transfer_dest t = None"
    and full: "transfer_src t_a \<noteq> None" "transfer_dest t_a \<noteq> None"
      "transfer_src t_b \<noteq> None" "transfer_dest t_b \<noteq> None"
    and once: "length (matches db t_a) \<le> 1" "length (matches db t_b) \<le> 1"
  shows "\<exists>r_a r_b. joined db t_a = [r_a] \<and> joined db t_b = [r_b] \<and>
     transferhistory (final (init_plugin loads db (Some c) s)) =
       transferhistory s @
         [Transfer_truncate,
          Transfer_add (transfer_kwargs (the (transfer_src t_a)) (the (transfer_dest t_a)) r_a),
          Transfer_add (transfer_kwargs (the (transfer_src t_b)) (the (transfer_dest t_b)) r_b)]"
proof -
  from joined_single [OF once(1)] obtain r_a where a: "joined db t_a = [r_a]" by blast
  from joined_single [OF once(2)] obtain r_b where b: "joined db t_b = [r_b]" by blast
  have pa: "fst r_a = transfer_src t_a" "fst (snd r_a) = transfer_dest t_a"
    using paths_of_joined [of r_a db t_a] a by simp_all
  have pb: "fst r_b = transfer_src t_b" "fst (snd r_b) = transfer_dest t_b"
    using paths_of_joined [of r_b db t_b] b by simp_all
  have skip: "filter complete (joined db t) = []" using null by (simp add: joined_skipped)
  have "filter complete (transfer_query db) =
      concat (map (\<lambda>x. filter complete (joined db x)) (before @ t # after))"
    by (simp add: transfer_query_def table filter_concat comp_def)
  also have "\<dots> = concat (map (\<lambda>x. filter complete (joined db x)) (before @ after))"
    by (simp add: skip)
  also have "\<dots> = [r_a, r_b]"
  proof -
    have "complete r_a" using complete_joined [of r_a db t_a] a full(1,2) by simp
    moreover have "complete r_b" using complete_joined [of r_b db t_b] b full(3,4) by simp
    ultimately show ?thesis by (simp add: others a b)
  qed
  finally have kept: "filter complete (transfer_query db) = [r_a, r_b]" .
  have "TRANSFER_HISTORY db \<noteq> []" using table by simp
  from init_plugin_transfer_calls [OF assms(1-4) this, of loads s]
  have "transferhistory (final (init_plugin loads db (Some c) s)) =
       transferhistory s @
         [Transfer_truncate,
          Transfer_add (transfer_kwargs (the (transfer_src t_a)) (the (transfer_dest t_a)) r_a),
          Transfer_add (transfer_kwargs (the (transfer_src t_b)) (the (transfer_dest t_b)) r_b)]"
    by (simp add: kept pa pb)
  with a b show ?thesis by blast
qed

theorem clear_then_two_appends_witness:
  "transferhistory (final (init_plugin (\<lambda>text. None)
      \<lparr>TRANSFER_HISTORY =
         [film (Some ''/nt'') (Some ''a.mkv'') (Some ''/lib'') (Some ''a.mkv''),
          film (Some ''/nt'') (Some ''b.mkv'') None None,
          film (Some ''/nt'') (Some ''c.mkv'') (Some ''/lib'') (Some ''c.mkv'')],
       PLUGIN_HISTORY = [], DOWNLOAD_HISTORY = [], bare_row = hd\<rparr>
      (Some \<lparr>clear = True, nt_db_path = Some ''/nt/user.db'', path = None, site = None,
              transfer = True, plugin = False, downloader = None, download = False\<rparr>)
      fresh)) =
   [Transfer_truncate,
    Transfer_add (transfer_kwargs ''/nt/a.mkv'' ''/lib/a.mkv''
      (film_row (Some ''/nt/a.mkv'') (Some ''/lib/a.mkv''))),
    Transfer_add (transfer_kwargs ''/nt/c.mkv'' ''/lib/c.mkv''
      (film_row (Some ''/nt/c.mkv'') (Some ''/lib/c.mkv'')))]"
  using clear_then_two_appends
    [where c = "\<lparr>clear = True, nt_db_path = Some ''/nt/user.db'', path = None, site = None,
              transfer = True, plugin = False, downloader = None, download = False\<rparr>"
       and db = "\<lparr>TRANSFER_HISTORY =
         [film (Some ''/nt'') (Some ''a.mkv'') (Some ''/lib'') (Some ''a.mkv''),
          film (Some ''/nt'') (Some ''b.mkv'') None None,
          film (Some ''/nt'') (Some ''c.mkv'') (Some ''/lib'') (Some ''c.mkv'')],
         PLUGIN_HISTORY = [], DOWNLOAD_HISTORY = [], bare_row = hd\<rparr>"
       and before = "[film (Some ''/nt'') (Some ''a.mkv'') (Some ''/lib'') (Some ''a.mkv'')]"
       and after = "[film (Some ''/nt'') (Some ''c.mkv'') (Some ''/lib'') (Some ''c.mkv'')]"
       and t = "film (Some ''/nt'') (Some ''b.mkv'') None None"
       and t_a = "film (Some ''/nt'') (Some ''a.mkv'') (Some ''/lib'') (Some ''a.mkv'')"
       and t_b = "film (Some ''/nt'') (Some ''c.mkv'') (Some ''/lib'') (Some ''c.mkv'')"
       and loads = "\<lambda>text. None" and s = fresh]
  by (simp add: film_def film_row_def fresh_def joined_def matches_def grouped_downloads_def
      mode_of_def type_of_def seasons_of_def episodes_of_def anime_label_def)

section \<open>The path map\<close>

lemma split_char_no_sep:
  "sep \<notin> set s \<Longrightarrow> split_char sep s = [s]"
  by (induction s) auto

lemma split_char_append:
  "sep \<notin> set a \<Longrightarrow> split_char sep (a @ sep # b) = a # split_char sep b"
  by (induction a) auto

lemma split_char_nonempty [simp]:
  "split_char sep s \<noteq> []"
  using split_char_length [of sep s] by auto


lemma replace_backslashes:
  "py_replace s [CHR 0x5C] ''/'' = slashes s"
  by (induction s) (auto simp: py_replace_def slashes_def)

lemma replace_absent:
  "\<not> sublist old s \<Longrightarrow> replace_occurrences s old new = s"
proof (induction s)
  case Nil
  then show ?case by simp
next
  case (Cons c cs)
  then have "\<not> prefix old (c # cs)" using prefix_imp_sublist by blast
  moreover from Cons.prems have "\<not> sublist old cs" by (auto simp: sublist_Cons_right)
  ultimately show ?case using Cons.IH by simp
qed

lemma py_replace_absent:
  "\<not> sublist old s \<Longrightarrow> py_replace s old new = s"
  by (cases "old = []") (simp_all add: py_replace_def replace_absent)

lemma replace_first_occurrence:
  assumes "old \<noteq> []" and "\<And>i. i < length a \<Longrightarrow> \<not> prefix old (drop i (a @ old @ b))"
  shows "replace_occurrences (a @ old @ b) old new = a @ new @ replace_occurrences b old new"
  using assms(2)
proof (induction a)
  case Nil
  from assms(1) obtain c cs where old: "old = c # cs" by (cases old) auto
  have "replace_occurrences ((c # cs) @ b) (c # cs) new =
      new @ replace_occurrences (drop (length (c # cs)) ((c # cs) @ b)) (c # cs) new"
    by (simp del: drop_Suc_Cons)
  then show ?case by (simp add: old)
next
  case (Cons x a)
  have "\<not> prefix old ((x # a) @ old @ b)" using Cons.prems [of 0] by simp
  moreover have "replace_occurrences (a @ old @ b) old new = a @ new @ replace_occurrences b old new"
  proof (rule Cons.IH)
    fix i assume "i < length a"
    then show "\<not> prefix old (drop i (a @ old @ b))" using Cons.prems [of "Suc i"] by simp
  qed
  ultimately show ?case by simp
qed

lemma remap_paths_one_line:
  assumes "CHR 0x0A \<notin> set line" and "split_char (CHR '':'') line = p1 # p2 # rest"
  shows "remap_paths (Some line) (msrc, mdest) =
     Inr (slashes (py_replace msrc p1 p2), slashes (py_replace mdest p1 p2))"
proof -
  have l: "split_char (CHR 0x0A) line = [line]"
    using assms(1) by (rule split_char_no_sep)
  have "line \<noteq> []" using assms(2) by auto
  then show ?thesis
    by (simp add: remap_paths_def l assms(2) path_step_def item_def and_then_def
        replace_backslashes)
qed

lemma slashes_absent:
  "CHR 0x5C \<notin> set s \<Longrightarrow> slashes s = s"
  by (induction s) (auto simp: slashes_def)

text \<open>
  Claim C3 says that a path rule \<open>p1:p2\<close> replaces only the first occurrence of
  \<open>p1\<close> in a path and that a path no rule matches is returned unchanged. With the
  rule \<open>/a:/b\<close> the path \<open>/a/x/a\<close> becomes \<open>/b/x/b\<close>, where replacing
  the first occurrence would give \<open>/b/x/a\<close>; and a path with a backslash in which
  \<open>/a\<close> does not occur still has its backslash turned into a slash.
\<close>

theorem later_occurrence_also_replaced:
  "remap_paths (Some ''/a:/b'') (''/a/x/a'', [CHR ''C'', CHR 0x5C, CHR ''x'']) =
     Inr (''/b/x/b'', ''C/x'') \<and>
   spec_replace_first ''/a/x/a'' ''/a'' ''/b'' = ''/b/x/a'' \<and>
   \<not> sublist ''/a'' [CHR ''C'', CHR 0x5C, CHR ''x'']"
  by (simp add: remap_paths_def path_step_def item_def and_then_def py_replace_def
      sublist_Cons_right)

text \<open>
  Claim C3 as amended. Let the path map be one line (no newline) that holds a colon, let
  \<open>p1\<close> be its text before the first colon and \<open>p2\<close> its text between the first
  colon and the second, or up to the end of the line when there is no second colon (what
  \<open>line.split(":")\<close> has at index 0 and 1; the line \<open>C:\<close>, backslash,
  \<open>nt:/mnt\<close> has \<open>C\<close> for \<open>p1\<close> and backslash, \<open>nt\<close> for \<open>p2\<close>).
  Then both paths of a row have every occurrence of
  \<open>p1\<close> replaced by \<open>p2\<close> as \<open>str.replace\<close> does it, and then every
  backslash by a slash. For a non-empty \<open>p1\<close>, \<open>str.replace\<close> replaces the
  leftmost occurrence and goes on in the same way behind it. A path in which \<open>p1\<close>
  does not occur keeps its text but for the backslashes, and is returned unchanged when it
  holds no backslash either. With no path map (absent or empty) both paths are returned
  unchanged.
\<close>

theorem path_rule_replaces_every_occurrence:
  assumes "CHR 0x0A \<notin> set line" and "split_char (CHR '':'') line = p1 # p2 # rest"
  shows "remap_paths (Some line) (msrc, mdest) =
       Inr (slashes (py_replace msrc p1 p2), slashes (py_replace mdest p1 p2)) \<and>
     (p1 \<noteq> [] \<and> (\<forall>i<length a. \<not> prefix p1 (drop i (a @ p1 @ b))) \<longrightarrow>
        py_replace (a @ p1 @ b) p1 p2 = a @ p2 @ py_replace b p1 p2) \<and>
     (\<not> sublist p1 msrc \<longrightarrow> py_replace msrc p1 p2 = msrc) \<and>
     (\<not> sublist p1 msrc \<and> CHR 0x5C \<notin> set msrc \<longrightarrow>
        slashes (py_replace msrc p1 p2) = msrc) \<and>
     remap_paths None (msrc, mdest) = Inr (msrc, mdest) \<and>
     remap_paths (Some []) (msrc, mdest) = Inr (msrc, mdest)"
proof -
  have "py_replace (a @ p1 @ b) p1 p2 = a @ p2 @ py_replace b p1 p2"
    if "p1 \<noteq> []" and "\<forall>i<length a. \<not> prefix p1 (drop i (a @ p1 @ b))"
    using that replace_first_occurrence [of p1 a b p2] by (simp add: py_replace_def)
  then show ?thesis
    using remap_paths_one_line [OF assms, of msrc mdest] py_replace_absent [of p1 msrc p2]
      slashes_absent [of msrc]
    by (simp add: remap_paths_def)
qed

theorem path_rule_replaces_every_occurrence_witness:
  "remap_paths (Some ''/a:/b'') (''/a/x/a'', [CHR ''C'', CHR 0x5C, CHR ''x'']) =
     Inr (''/b/x/b'', ''C/x'') \<and>
   py_replace ''/x/a/y/a'' ''/a'' ''/b'' = ''/x/b'' @ py_replace ''/y/a'' ''/a'' ''/b'' \<and>
   py_replace ''/c/x'' ''/a'' ''/b'' = ''/c/x'' \<and>
   remap_paths (Some ''/a:/b'') (''/c/x'', ''/c/y'') = Inr (''/c/x'', ''/c/y'') \<and>
   remap_paths (Some [CHR ''C'', CHR '':'', CHR 0x5C, CHR ''n'', CHR ''t'', CHR '':'',
                      CHR ''/'', CHR ''m'', CHR ''n'', CHR ''t''])
     ([CHR ''C'', CHR '':'', CHR 0x5C, CHR ''n'', CHR ''t'', CHR 0x5C, CHR ''a''], ''/lib/a'') =
     Inr ([CHR ''/'', CHR ''n'', CHR ''t'', CHR '':'', CHR ''/'', CHR ''n'', CHR ''t'',
           CHR ''/'', CHR ''a''], ''/lib/a'')"
proof -
  have occ: "\<forall>i<length ''/x''. \<not> prefix ''/a'' (drop i (''/x'' @ ''/a'' @ ''/y/a''))"
    by (simp add: All_less_Suc numeral_2_eq_2)
  have ab: "\<not> sublist ''/a'' ''/c/x''" by (simp add: sublist_Cons_right)
  have first: "remap_paths (Some ''/a:/b'') (''/a/x/a'', [CHR ''C'', CHR 0x5C, CHR ''x'']) =
       Inr (''/b/x/b'', ''C/x'') \<and>
     py_replace ''/x/a/y/a'' ''/a'' ''/b'' = ''/x/b'' @ py_replace ''/y/a'' ''/a'' ''/b''"
    using path_rule_replaces_every_occurrence [of "''/a:/b''" "''/a''" "''/b''" "[]" "''/a/x/a''"
        "[CHR ''C'', CHR 0x5C, CHR ''x'']" "''/x''" "''/y/a''"] occ
    by (simp add: py_replace_def slashes_def)
  have second: "py_replace ''/c/x'' ''/a'' ''/b'' = ''/c/x'' \<and>
     remap_paths (Some ''/a:/b'') (''/c/x'', ''/c/y'') = Inr (''/c/x'', ''/c/y'')"
    using path_rule_replaces_every_occurrence [of "''/a:/b''" "''/a''" "''/b''" "[]" "''/c/x''"
        "''/c/y''" "[]" "[]"] ab
    by (simp add: py_replace_def slashes_def)
  have third: "remap_paths (Some [CHR ''C'', CHR '':'', CHR 0x5C, CHR ''n'', CHR ''t'', CHR '':'',
                      CHR ''/'', CHR ''m'', CHR ''n'', CHR ''t''])
     ([CHR ''C'', CHR '':'', CHR 0x5C, CHR ''n'', CHR ''t'', CHR 0x5C, CHR ''a''], ''/lib/a'') =
     Inr ([CHR ''/'', CHR ''n'', CHR ''t'', CHR '':'', CHR ''/'', CHR ''n'', CHR ''t'',
           CHR ''/'', CHR ''a''], ''/lib/a'')"
    using path_rule_replaces_every_occurrence [of
        "[CHR ''C'', CHR '':'', CHR 0x5C, CHR ''n'', CHR ''t'', CHR '':'',
          CHR ''/'', CHR ''m'', CHR ''n'', CHR ''t'']"
        "''C''" "[CHR 0x5C, CHR ''n'', CHR ''t'']" "[''/mnt'']"
        "[CHR ''C'', CHR '':'', CHR 0x5C, CHR ''n'', CHR ''t'', CHR 0x5C, CHR ''a'']"
        "''/lib/a''" "[]" "[]"]
    by (simp add: py_replace_def slashes_def)
  from first second third show ?thesis by (simp only: simp_thms)
qed


section \<open>Several rules\<close>






section \<open>The key of a transferred torrent\<close>

lemmas plugin_defs = remap_plugin_def
  downloader_step_def torrent_transfer_def auto_seed_def rewrite_field_def same_index_def
  decode_def dict_get_def example_loads_def py_replace_def isdigit_def digit_char_def
  decimal_def py_int_def strip_def space_char_def grouped_digits_def

text \<open>
  Claim C2. A \<open>TorrentTransfer\<close> record with the key \<open>1-abc123\<close> should get the
  key \<open>2-abc123\<close> under the downloader rule \<open>1:2\<close>. The code isolates the index
  with \<open>split("-")\<close> but then calls \<open>plugin_key.replace(keys[0], sub_downloaders[1])\<close>
  on the whole key, which rewrites every \<open>1\<close>, also inside the hash: the record is
  saved under \<open>2-abc223\<close>.
\<close>

theorem torrent_transfer_key_hash_rewritten:
  "plugindata (final (init_plugin example_loads
      \<lparr>TRANSFER_HISTORY = [],
       PLUGIN_HISTORY = [(PInt 1, ''TorrentTransfer'', ''1-abc123'', PStr ''{\"to_download\": 1}'')],
       DOWNLOAD_HISTORY = [], bare_row = hd\<rparr>
      (Some \<lparr>clear = False, nt_db_path = Some ''/nt/user.db'', path = None, site = None,
              transfer = False, plugin = True, downloader = Some ''1:2'', download = False\<rparr>)
      fresh)) =
     [Plugin_save ''TorrentTransfer'' ''2-abc223'' (PDict [(''to_download'', PStr ''2'')])] \<and>
   py_replace ''1-abc123'' ''1'' ''2'' = ''2-abc223''"
  by (simp add: run_defs plugin_defs)

section \<open>A category without rows\<close>

text \<open>
  Claim C4. When an enabled category has no rows, \<open>get_nt_transfer_history\<close> logs an
  error and returns \<open>None\<close>, not an empty sequence, and \<open>for history in
  transfer_history\<close> then raises \<open>TypeError\<close>: the run ends there, the plugin
  records that follow are not imported and the configuration is not persisted.
\<close>

theorem empty_category_raises:
  "raised (init_plugin example_loads
      \<lparr>TRANSFER_HISTORY = [],
       PLUGIN_HISTORY = [(PInt 1, ''DoubanSync'', ''k'', PStr ''v'')],
       DOWNLOAD_HISTORY = [], bare_row = hd\<rparr>
      (Some \<lparr>clear = False, nt_db_path = Some ''/nt/user.db'', path = None, site = None,
              transfer = True, plugin = True, downloader = None, download = False\<rparr>)
      fresh) = Some TypeError \<and>
   final (init_plugin example_loads
      \<lparr>TRANSFER_HISTORY = [],
       PLUGIN_HISTORY = [(PInt 1, ''DoubanSync'', ''k'', PStr ''v'')],
       DOWNLOAD_HISTORY = [], bare_row = hd\<rparr>
      (Some \<lparr>clear = False, nt_db_path = Some ''/nt/user.db'', path = None, site = None,
              transfer = True, plugin = True, downloader = None, download = False\<rparr>)
      fresh) =
     fresh\<lparr>attrs := \<lparr>clear = False, nt_db_path = Some ''/nt/user.db'', path = None, site = None,
              transfer = True, plugin = True, downloader = None, download = False\<rparr>,
           log := [(ERROR, Nothing_fetched Transfers), (INFO, Sync_begins Transfers)]\<rparr>"
  by (simp add: run_defs plugin_defs)

section \<open>A plugin value that is not JSON\<close>

lemma downloader_step_malformed:
  assumes "plugin_id = ''TorrentTransfer'' \<or> plugin_id = ''IYUUAutoSeed''"
    and "loads t = None"
  shows "\<exists>e. downloader_step loads plugin_id l (k, PStr t) = Inl e"
proof -
  have d: "decode loads (PStr t) = Inl JSONDecodeError"
    using assms(2) by (simp add: decode_def)
  from assms(1) show ?thesis
  proof
    assume tt: "plugin_id = ''TorrentTransfer''"
    have "\<exists>e. torrent_transfer loads sub (k, PStr t) = Inl e" for sub
      by (auto simp: torrent_transfer_def Let_def and_then_def d split: sum.split)
    then obtain e where "torrent_transfer loads (split_char (CHR '':'') l) (k, PStr t) = Inl e"
      by blast
    with tt show ?thesis by (simp add: downloader_step_def Let_def and_then_def)
  next
    assume "plugin_id = ''IYUUAutoSeed''"
    then show ?thesis
      by (simp add: downloader_step_def Let_def and_then_def auto_seed_def d)
  qed
qed

lemma remap_plugin_malformed:
  assumes "plugin_id = ''TorrentTransfer'' \<or> plugin_id = ''IYUUAutoSeed''"
    and "loads t = None" and "truthy d"
  shows "\<exists>e. remap_plugin loads d plugin_id (k, PStr t) = Inl e"
proof -
  from assms(3) obtain dt where dt: "d = Some dt" by (cases d) auto
  obtain l ls where ls: "split_char (CHR 0x0A) dt = l # ls"
    using split_char_nonempty [of "CHR 0x0A" dt] by (cases "split_char (CHR 0x0A) dt") auto
  obtain e where "downloader_step loads plugin_id l (k, PStr t) = Inl e"
    using downloader_step_malformed [where loads = loads and t = t and plugin_id = plugin_id]
      assms(1,2) by blast
  then show ?thesis using assms(3) by (simp add: remap_plugin_def dt ls and_then_def)
qed

lemma plugin_body_malformed:
  assumes "plugin_id = ''TorrentTransfer'' \<or> plugin_id = ''IYUUAutoSeed''"
    and "loads t = None" and "truthy (downloader (attrs s))"
  shows "\<exists>e. plugin_body loads (rowid, plugin_id, plugin_key, PStr t) s = Raised e s"
proof -
  obtain e where "remap_plugin loads (downloader (attrs s)) plugin_id (plugin_key, PStr t) = Inl e"
    using remap_plugin_malformed [where loads = loads and t = t and plugin_id = plugin_id
        and d = "downloader (attrs s)"] assms by blast
  then show ?thesis by simp
qed

lemma plugin_body_attrs:
  "attrs (final (plugin_body loads r s)) = attrs s"
  by (cases r) (simp split: sum.split prod.split)

lemma for_rows_plugin_stops:
  assumes "plugin_id = ''TorrentTransfer'' \<or> plugin_id = ''IYUUAutoSeed''"
    and "loads t = None" and "truthy (downloader (attrs s))"
  shows "\<exists>e. for_rows (plugin_body loads)
       (before @ (rowid, plugin_id, plugin_key, PStr t) # after) s =
     Raised e (final (for_rows (plugin_body loads) before s))"
  using assms(3)
proof (induction before arbitrary: s)
  case Nil
  then show ?case
    using plugin_body_malformed [where loads = loads and t = t and plugin_id = plugin_id
        and s = s and rowid = rowid and plugin_key = plugin_key] assms(1,2) by auto
next
  case (Cons r before)
  show ?case
  proof (cases "plugin_body loads r s")
    case (Returned s')
    then have "attrs s' = attrs s" using plugin_body_attrs [of loads r s] by simp
    with Cons.prems have "truthy (downloader (attrs s'))" by simp
    from Cons.IH [OF this] Returned show ?thesis by simp
  next
    case (Raised e s')
    then show ?thesis by simp
  qed
qed

lemma sync_plugin_history_stops:
  assumes "plugin_id = ''TorrentTransfer'' \<or> plugin_id = ''IYUUAutoSeed''"
    and "loads t = None" and "truthy (downloader (attrs s))"
  shows "\<exists>e. sync_plugin_history loads
       (Some (before @ (rowid, plugin_id, plugin_key, PStr t) # after)) s =
     Raised e (final (for_rows (plugin_body loads) before
       (if clear (attrs s)
        then (logger INFO (Store_emptied Plugins) (logger INFO (Sync_begins Plugins) s))
               \<lparr>plugindata := plugindata s @ [Plugin_truncate]\<rparr>
        else logger INFO (Sync_begins Plugins) s)))"
proof -
  let ?s2 = "if clear (attrs s)
        then (logger INFO (Store_emptied Plugins) (logger INFO (Sync_begins Plugins) s))
               \<lparr>plugindata := plugindata s @ [Plugin_truncate]\<rparr>
        else logger INFO (Sync_begins Plugins) s"
  have "truthy (downloader (attrs ?s2))" using assms(3) by simp
  with for_rows_plugin_stops [where loads = loads and t = t and plugin_id = plugin_id
        and s = ?s2 and before = before and rowid = rowid and plugin_key = plugin_key
        and after = after] assms(1,2)
  obtain e where r: "for_rows (plugin_body loads)
       (before @ (rowid, plugin_id, plugin_key, PStr t) # after) ?s2 =
     Raised e (final (for_rows (plugin_body loads) before ?s2))" by blast
  have "sync_plugin_history loads
       (Some (before @ (rowid, plugin_id, plugin_key, PStr t) # after)) s =
     then_run (for_rows (plugin_body loads)
       (before @ (rowid, plugin_id, plugin_key, PStr t) # after) ?s2)
       (\<lambda>s3. Returned (logger INFO (Sync_ended Plugins) s3))"
    by (simp add: sync_plugin_history_def Let_def)
  also have "\<dots> = Raised e (final (for_rows (plugin_body loads) before ?s2))"
    by (simp only: r then_run.simps)
  finally show ?thesis by blast
qed

lemma sync_plugin_history_prefix:
  "plugindata (final (sync_plugin_history loads (Some rows) s)) =
   plugindata (final (for_rows (plugin_body loads) rows
       (if clear (attrs s)
        then (logger INFO (Store_emptied Plugins) (logger INFO (Sync_begins Plugins) s))
               \<lparr>plugindata := plugindata s @ [Plugin_truncate]\<rparr>
        else logger INFO (Sync_begins Plugins) s)))"
  by (simp add: sync_plugin_history_def Let_def final_then_run split: outcome.split)

text \<open>
  Claim C1 says that a record whose value has to be rewritten and is malformed JSON is
  skipped and logged, that the run goes on with the remaining records, and that no
  exception leaves the coordinator. Nothing in the plugin catches an exception: with three
  plugin records of which the second is an \<open>IYUUAutoSeed\<close> record with the value
  \<open>{bad\<close>, \<open>init_plugin\<close> raises \<open>JSONDecodeError\<close>; the first record has
  been saved, the third has not, nothing about the second was logged and the
  configuration was not persisted.
\<close>

theorem malformed_value_is_not_skipped:
  "(let run = init_plugin example_loads
      \<lparr>TRANSFER_HISTORY = [],
       PLUGIN_HISTORY =
         [(PInt 1, ''DoubanSync'', ''k1'', PStr ''v1''),
          (PInt 2, ''IYUUAutoSeed'', ''f161'', PStr ''{bad''),
          (PInt 3, ''DoubanSync'', ''k3'', PStr ''v3'')],
       DOWNLOAD_HISTORY = [], bare_row = hd\<rparr>
      (Some \<lparr>clear = False, nt_db_path = Some ''/nt/user.db'', path = None, site = None,
              transfer = False, plugin = True, downloader = Some ''1:2'', download = False\<rparr>)
      fresh
    in raised run = Some JSONDecodeError \<and>
       plugindata (final run) = [Plugin_save ''DoubanSync'' ''k1'' (PStr ''v1'')] \<and>
       systemconfig (final run) = None \<and>
       log (final run) = [(INFO, Fetched Plugins 3), (INFO, Sync_begins Plugins)])"
  by (simp add: run_defs plugin_defs)

text \<open>
  Claim C1 as amended. Let downloader rules be configured and let a
  \<open>TorrentTransfer\<close> or \<open>IYUUAutoSeed\<close> record have a text value that
  \<open>json.loads\<close> rejects. Then the plugin import raises at that record, having saved
  what the records before it produce and nothing of that record or of the records after
  it. The exception leaves \<open>init_plugin\<close>: the download category does not run and the
  configuration is not persisted.
\<close>

theorem malformed_value_ends_the_run:
  assumes db: "truthy (nt_db_path c)" and on: "plugin c" and rules: "truthy (downloader c)"
    and rows: "PLUGIN_HISTORY db = before @ (rowid, plugin_id, plugin_key, PStr t) # after"
    and id: "plugin_id = ''TorrentTransfer'' \<or> plugin_id = ''IYUUAutoSeed''"
    and bad: "loads t = None"
  shows "raised (init_plugin loads db (Some c) s) \<noteq> None \<and>
     systemconfig (final (init_plugin loads db (Some c) s)) = systemconfig s \<and>
     downloadhistory (final (init_plugin loads db (Some c) s)) = downloadhistory s \<and>
     (truthy (downloader (attrs u)) \<longrightarrow>
        raised (sync_plugin_history loads (Some (PLUGIN_HISTORY db)) u) \<noteq> None \<and>
        plugindata (final (sync_plugin_history loads (Some (PLUGIN_HISTORY db)) u)) =
          plugindata (final (sync_plugin_history loads (Some before) u)))"
proof -
  let ?rows = "before @ (rowid, plugin_id, plugin_key, PStr t) # after"
  let ?s0 = "s\<lparr>attrs := c\<rparr>"
  have stops: "\<exists>e. sync_plugin_history loads (Some ?rows) v =
     Raised e (final (for_rows (plugin_body loads) before
       (if clear (attrs v)
        then (logger INFO (Store_emptied Plugins) (logger INFO (Sync_begins Plugins) v))
               \<lparr>plugindata := plugindata v @ [Plugin_truncate]\<rparr>
        else logger INFO (Sync_begins Plugins) v)))" if "truthy (downloader (attrs v))" for v
    using sync_plugin_history_stops [where loads = loads and t = t and plugin_id = plugin_id
        and s = v and before = before and rowid = rowid and plugin_key = plugin_key
        and after = after] id bad that by blast
  have part: "raised (sync_plugin_history loads (Some ?rows) u) \<noteq> None \<and>
        plugindata (final (sync_plugin_history loads (Some ?rows) u)) =
          plugindata (final (sync_plugin_history loads (Some before) u))"
    if "truthy (downloader (attrs u))"
  proof -
    from stops [OF that] obtain e where
      "sync_plugin_history loads (Some ?rows) u =
        Raised e (final (for_rows (plugin_body loads) before
          (if clear (attrs u)
           then (logger INFO (Store_emptied Plugins) (logger INFO (Sync_begins Plugins) u))
                  \<lparr>plugindata := plugindata u @ [Plugin_truncate]\<rparr>
           else logger INFO (Sync_begins Plugins) u)))" by blast
    then show ?thesis by (simp add: sync_plugin_history_prefix)
  qed
  have run: "init_plugin loads db (Some c) s =
     then_run (import_transfer db ?s0) (\<lambda>s1.
     then_run (import_plugin loads db s1) (\<lambda>s2.
     then_run (import_download db s2) (\<lambda>s3.
       Returned (update_config
         \<lparr>clear = False, nt_db_path = nt_db_path (attrs s3), path = path (attrs s3),
          site = site (attrs s3), transfer = False, plugin = False,
          downloader = downloader (attrs s3), download = False\<rparr> s3))))"
    using db on by (simp add: init_plugin_run)
  have whole: "raised (init_plugin loads db (Some c) s) \<noteq> None \<and>
     systemconfig (final (init_plugin loads db (Some c) s)) = systemconfig s \<and>
     downloadhistory (final (init_plugin loads db (Some c) s)) = downloadhistory s"
  proof (cases "import_transfer db ?s0")
    case (Raised e1 s1)
    moreover have "systemconfig (final (import_transfer db ?s0)) = systemconfig ?s0"
      "downloadhistory (final (import_transfer db ?s0)) = downloadhistory ?s0"
      by (simp_all add: import_transfer_frame [where f = systemconfig]
          import_transfer_frame [where f = downloadhistory])
    ultimately show ?thesis by (simp add: run)
  next
    case (Returned s1)
    have s1: "systemconfig s1 = systemconfig s" "downloadhistory s1 = downloadhistory s"
      "attrs s1 = c"
      using Returned import_transfer_frame [where f = systemconfig and db = db and s = ?s0]
        import_transfer_frame [where f = downloadhistory and db = db and s = ?s0]
        import_attrs(1) [of db ?s0]
      by simp_all
    let ?v = "logger INFO (Fetched Plugins (length ?rows)) s1"
    have imp: "import_plugin loads db s1 = sync_plugin_history loads (Some ?rows) ?v"
      using on s1(3) rows by (simp add: import_plugin_def get_nt_plugin_history_def Let_def)
    have "truthy (downloader (attrs ?v))" using rules s1(3) by simp
    from stops [OF this] obtain e s2 where r: "import_plugin loads db s1 = Raised e s2"
      using imp by auto
    have "systemconfig (final (import_plugin loads db s1)) = systemconfig s1"
      "downloadhistory (final (import_plugin loads db s1)) = downloadhistory s1"
      by (simp_all add: import_plugin_frame [where f = systemconfig]
          import_plugin_frame [where f = downloadhistory])
    with r s1 Returned show ?thesis by (simp add: run)
  qed
  from whole part rows show ?thesis by simp
qed

theorem malformed_value_ends_the_run_witness:
  "(let run = init_plugin example_loads
      \<lparr>TRANSFER_HISTORY = [],
       PLUGIN_HISTORY =
         [(PInt 1, ''DoubanSync'', ''k1'', PStr ''v1''),
          (PInt 2, ''IYUUAutoSeed'', ''f161'', PStr ''{bad''),
          (PInt 3, ''DoubanSync'', ''k3'', PStr ''v3'')],
       DOWNLOAD_HISTORY = [], bare_row = hd\<rparr>
      (Some \<lparr>clear = False, nt_db_path = Some ''/nt/user.db'', path = None, site = None,
              transfer = False, plugin = True, downloader = Some ''1:2'', download = False\<rparr>)
      fresh
    in raised run \<noteq> None \<and> systemconfig (final run) = None \<and> downloadhistory (final run) = [])"
  using malformed_value_ends_the_run
    [where c = "\<lparr>clear = False, nt_db_path = Some ''/nt/user.db'', path = None, site = None,
              transfer = False, plugin = True, downloader = Some ''1:2'', download = False\<rparr>"
       and db = "\<lparr>TRANSFER_HISTORY = [],
         PLUGIN_HISTORY =
           [(PInt 1, ''DoubanSync'', ''k1'', PStr ''v1''),
            (PInt 2, ''IYUUAutoSeed'', ''f161'', PStr ''{bad''),
            (PInt 3, ''DoubanSync'', ''k3'', PStr ''v3'')],
         DOWNLOAD_HISTORY = [], bare_row = hd\<rparr>"
       and before = "[(PInt 1, ''DoubanSync'', ''k1'', PStr ''v1'')]"
       and after = "[(PInt 3, ''DoubanSync'', ''k3'', PStr ''v3'')]"
       and rowid = "PInt 2" and plugin_id = "''IYUUAutoSeed''" and plugin_key = "''f161''"
       and t = "''{bad''" and loads = example_loads and s = fresh and u = fresh]
  by (simp add: example_loads_def fresh_def Let_def)

section \<open>The configuration after a run\<close>

lemma then_run_Returned:
  "then_run r f = Returned s' \<longleftrightarrow> (\<exists>s1. r = Returned s1 \<and> f s1 = Returned s')"
  by (cases r) simp_all

text \<open>
  Claim C8. When a run (a configuration with a database path and at least one category
  switched on) has gone through its categories and \<open>init_plugin\<close> returns, the
  configuration that \<open>update_config\<close> has persisted has \<open>clear\<close>,
  \<open>transfer\<close>, \<open>plugin\<close> and \<open>download\<close> off and the database path and
  the three rule texts as they were. Giving \<open>init_plugin\<close> that persisted
  configuration, with any database, only sets the attributes: no store is called, nothing
  is logged or persisted.
\<close>

theorem configuration_persisted_switched_off:
  assumes ret: "init_plugin loads db (Some c) s = Returned s'"
    and db: "truthy (nt_db_path c)" and on: "transfer c \<or> plugin c \<or> download c"
  shows "systemconfig s' =
       Some \<lparr>clear = False, nt_db_path = nt_db_path c, path = path c, site = site c,
             transfer = False, plugin = False, downloader = downloader c, download = False\<rparr> \<and>
     init_plugin loads' db' (systemconfig s') s' =
       Returned (s'\<lparr>attrs := \<lparr>clear = False, nt_db_path = nt_db_path c, path = path c,
          site = site c, transfer = False, plugin = False, downloader = downloader c,
          download = False\<rparr>\<rparr>)"
proof -
  let ?s0 = "s\<lparr>attrs := c\<rparr>"
  from ret obtain s1 s2 s3 where
    t: "import_transfer db ?s0 = Returned s1" and
    p: "import_plugin loads db s1 = Returned s2" and
    d: "import_download db s2 = Returned s3" and
    s': "s' = update_config
         \<lparr>clear = False, nt_db_path = nt_db_path (attrs s3), path = path (attrs s3),
          site = site (attrs s3), transfer = False, plugin = False,
          downloader = downloader (attrs s3), download = False\<rparr> s3"
    unfolding init_plugin_run [OF db on] then_run_Returned by auto
  have "attrs s1 = c" using t import_attrs(1) [of db ?s0] by simp
  then have "attrs s2 = c" using p import_attrs(2) [of loads db s1] by simp
  then have "attrs s3 = c" using d import_attrs(3) [of db s2] by simp
  then have cfg: "systemconfig s' =
       Some \<lparr>clear = False, nt_db_path = nt_db_path c, path = path c, site = site c,
             transfer = False, plugin = False, downloader = downloader c, download = False\<rparr>"
    by (simp add: s' update_config_def)
  show ?thesis
    unfolding cfg by (simp add: init_plugin_idle)
qed

theorem configuration_persisted_switched_off_witness:
  "systemconfig (final (init_plugin example_loads
      \<lparr>TRANSFER_HISTORY = [film (Some ''/nt'') (Some ''a.mkv'') (Some ''/lib'') (Some ''a.mkv'')],
       PLUGIN_HISTORY = [], DOWNLOAD_HISTORY = [], bare_row = hd\<rparr>
      (Some \<lparr>clear = True, nt_db_path = Some ''/nt/user.db'', path = Some ''/nt:/lib'',
              site = None, transfer = True, plugin = False, downloader = Some ''1:2'',
              download = False\<rparr>)
      fresh)) =
     Some \<lparr>clear = False, nt_db_path = Some ''/nt/user.db'', path = Some ''/nt:/lib'',
           site = None, transfer = False, plugin = False, downloader = Some ''1:2'',
           download = False\<rparr>"
proof -
  let ?run = "init_plugin example_loads
      \<lparr>TRANSFER_HISTORY = [film (Some ''/nt'') (Some ''a.mkv'') (Some ''/lib'') (Some ''a.mkv'')],
       PLUGIN_HISTORY = [], DOWNLOAD_HISTORY = [], bare_row = hd\<rparr>
      (Some \<lparr>clear = True, nt_db_path = Some ''/nt/user.db'', path = Some ''/nt:/lib'',
              site = None, transfer = True, plugin = False, downloader = Some ''1:2'',
              download = False\<rparr>)
      fresh"
  have "raised ?run = None" by (simp add: run_defs py_replace_def)
  then have "?run = Returned (final ?run)" by (cases ?run) simp_all
  from configuration_persisted_switched_off [OF this] show ?thesis by simp
qed

section \<open>The save path of a download record\<close>

lemma fst_download_select [simp]: "fst (download_select r) = fst r"
  by (cases r rule: download_select.cases) simp

lemma download_query_paths:
  "list_all (\<lambda>r. fst r \<noteq> None) (download_query db)"
  by (simp add: download_query_def list_all_iff)

lemma download_query_sources:
  "r \<in> set (download_query db) \<Longrightarrow> \<exists>p. fst r = Some p \<and> p \<in> set (List.map_filter fst (DOWNLOAD_HISTORY db))"
  by (auto simp: download_query_def map_filter_def image_iff) force

lemma download_body_writes:
  assumes "\<exists>p. fst r = Some p \<and> p \<in> set (List.map_filter fst table)"
  shows "\<exists>new. downloadhistory (final (download_body r s)) = downloadhistory s @ new \<and>
     list_all (written_from table) new"
proof -
  from assms obtain p where p: "fst r = Some p" "p \<in> set (List.map_filter fst table)" by blast
  show ?thesis
  proof (cases "(r, s)" rule: download_body.cases)
    case (1 mpath mtype mtitle myear mtmdbid mseasons mepisodes mimages mdownload_hash mtorrent
        mdesc msite s0)
    then have r: "r = (mpath, mtype, mtitle, myear, mtmdbid, mseasons, mepisodes, mimages,
        mdownload_hash, mtorrent, mdesc, msite)" and s0: "s0 = s" by simp_all
    from p r have mp: "mpath = Some p" by simp
    show ?thesis
    proof (cases "remap_site (site (attrs s)) msite")
      case (Inl e)
      then show ?thesis by (simp add: r)
    next
      case (Inr msite')
      with p(2) show ?thesis by (simp add: r mp)
    qed
  qed
qed

lemma for_rows_download_writes:
  assumes "\<And>r. r \<in> set rows \<Longrightarrow> \<exists>p. fst r = Some p \<and> p \<in> set (List.map_filter fst table)"
  shows "\<exists>new. downloadhistory (final (for_rows download_body rows s)) = downloadhistory s @ new \<and>
     list_all (written_from table) new"
  using assms
proof (induction rows arbitrary: s)
  case Nil
  show ?case by simp
next
  case (Cons r rows)
  from Cons.prems [of r] obtain new1 where
    n1: "downloadhistory (final (download_body r s)) = downloadhistory s @ new1"
    "list_all (written_from table) new1"
    using download_body_writes [of r table s] by auto
  show ?case
  proof (cases "download_body r s")
    case (Raised e s')
    with n1 show ?thesis by auto
  next
    case (Returned s')
    from Cons.IH [of s'] Cons.prems obtain new2 where
      "downloadhistory (final (for_rows download_body rows s')) = downloadhistory s' @ new2"
      "list_all (written_from table) new2" by auto
    with n1 Returned show ?thesis by auto
  qed
qed

lemma import_download_writes:
  "\<exists>new. downloadhistory (final (import_download db s)) = downloadhistory s @ new \<and>
     list_all (written_from (DOWNLOAD_HISTORY db)) new"
proof (cases "download (attrs s) \<and> download_query db \<noteq> []")
  case False
  then show ?thesis
    by (auto simp: import_download_def get_nt_download_history_def sync_download_history_def
        Let_def)
next
  case True
  let ?s1 = "logger INFO (Fetched Downloads (length (download_query db))) s"
  let ?s2 = "if clear (attrs ?s1)
       then (logger INFO (Store_emptied Downloads) (logger INFO (Sync_begins Downloads) ?s1))
              \<lparr>downloadhistory := downloadhistory ?s1 @ [Download_truncate]\<rparr>
       else logger INFO (Sync_begins Downloads) ?s1"
  have imp: "import_download db s =
      then_run (for_rows download_body (download_query db) ?s2)
        (\<lambda>s3. Returned (logger INFO (Sync_ended Downloads) s3))"
    using True
    by (simp add: import_download_def get_nt_download_history_def sync_download_history_def
        Let_def)
  obtain new where new:
    "downloadhistory (final (for_rows download_body (download_query db) ?s2)) =
       downloadhistory ?s2 @ new" "list_all (written_from (DOWNLOAD_HISTORY db)) new"
    using for_rows_download_writes [of "download_query db" "DOWNLOAD_HISTORY db" ?s2]
      download_query_sources [of _ db] by blast
  have "downloadhistory (final (import_download db s)) =
      downloadhistory (final (for_rows download_body (download_query db) ?s2))"
    unfolding imp by (simp add: final_then_run split: outcome.split)
  also have "\<dots> = downloadhistory ?s2 @ new" by (rule new(1))
  also have "\<dots> = downloadhistory s @ (if clear (attrs s) then [Download_truncate] else []) @ new"
    by simp
  finally show ?thesis using new(2) by auto
qed

text \<open>
  Claim C10. The download query returns no row whose \<open>SAVE_PATH\<close> is \<open>NULL\<close>,
  and whatever \<open>init_plugin\<close> does, every \<open>add\<close> call the download store receives
  from it carries as path the base name of a \<open>SAVE_PATH\<close> of the table that is not
  \<open>NULL\<close>: \<open>os.path.basename\<close> is never given \<open>None\<close>.
\<close>

theorem download_paths_are_not_null:
  "list_all (\<lambda>r. fst r \<noteq> None) (download_query db) \<and>
   (\<exists>new. downloadhistory (final (init_plugin loads db (Some c) s)) = downloadhistory s @ new \<and>
      list_all (written_from (DOWNLOAD_HISTORY db)) new)"
proof (cases "truthy (nt_db_path c) \<and> (transfer c \<or> plugin c \<or> download c)")
  case False
  show ?thesis unfolding init_plugin_idle [OF False] using download_query_paths [of db] by simp
next
  case True
  then have run: "truthy (nt_db_path c)" "transfer c \<or> plugin c \<or> download c" by simp_all
  let ?s0 = "s\<lparr>attrs := c\<rparr>"
  let ?U = "\<lambda>s3. Returned (update_config
         \<lparr>clear = False, nt_db_path = nt_db_path (attrs s3), path = path (attrs s3),
          site = site (attrs s3), transfer = False, plugin = False,
          downloader = downloader (attrs s3), download = False\<rparr> s3)"
  have d: "\<exists>new. downloadhistory (final (then_run (import_download db t) ?U)) =
      downloadhistory t @ new \<and> list_all (written_from (DOWNLOAD_HISTORY db)) new" for t
    using import_download_writes [of db t]
    by (cases "import_download db t") (simp_all add: update_config_def)
  have p: "\<exists>new. downloadhistory (final (then_run (import_plugin loads db t)
        (\<lambda>s2. then_run (import_download db s2) ?U))) =
      downloadhistory t @ new \<and> list_all (written_from (DOWNLOAD_HISTORY db)) new" for t
  proof (cases "import_plugin loads db t")
    case (Returned t')
    then have "downloadhistory t' = downloadhistory t"
      using import_plugin_frame [where f = downloadhistory and loads = loads and db = db and s = t]
      by simp
    with d [of t'] Returned show ?thesis by simp
  next
    case (Raised e t')
    then have "downloadhistory t' = downloadhistory t"
      using import_plugin_frame [where f = downloadhistory and loads = loads and db = db and s = t]
      by simp
    with Raised show ?thesis by simp
  qed
  have "\<exists>new. downloadhistory (final (then_run (import_transfer db ?s0) (\<lambda>s1.
        then_run (import_plugin loads db s1)
        (\<lambda>s2. then_run (import_download db s2) ?U)))) =
      downloadhistory s @ new \<and> list_all (written_from (DOWNLOAD_HISTORY db)) new"
  proof (cases "import_transfer db ?s0")
    case (Returned t')
    then have "downloadhistory t' = downloadhistory s"
      using import_transfer_frame [where f = downloadhistory and db = db and s = ?s0] by simp
    with p [of t'] Returned show ?thesis by simp
  next
    case (Raised e t')
    then have "downloadhistory t' = downloadhistory s"
      using import_transfer_frame [where f = downloadhistory and db = db and s = ?s0] by simp
    with Raised show ?thesis by simp
  qed
  then show ?thesis unfolding init_plugin_run [OF run] using download_query_paths [of db] by simp
qed


theorem download_paths_are_not_null_witness:
  "downloadhistory (final (init_plugin example_loads
      \<lparr>TRANSFER_HISTORY = [], PLUGIN_HISTORY = [],
       DOWNLOAD_HISTORY =
         [(None, PStr ''movie'', PStr ''Up'', PStr ''2009'', PInt 14160, None, PNone, PStr ''h1'',
           PStr ''Up.2009.mkv'', PNone, Some ''OldSite''),
          (Some ''/downloads/films/Up (2009)'', PStr ''movie'', PStr ''Up'', PStr ''2009'',
           PInt 14160, Some ''S01 E02'', PNone, PStr ''h2'', PStr ''Up.2009.mkv'', PNone,
           Some ''OldSite'')], bare_row = hd\<rparr>
      (Some \<lparr>clear = False, nt_db_path = Some ''/nt/user.db'', path = None,
              site = Some ''OldSite:NewSite'', transfer = False, plugin = False,
              downloader = None, download = True\<rparr>)
      fresh)) =
     [Download_add \<lparr>dh_path = ''Up (2009)'', dh_type = PStr ''movie'', dh_title = PStr ''Up'',
        dh_year = PStr ''2009'', dh_tmdbid = PInt 14160, dh_seasons = Some ''S01'',
        dh_episodes = Some ''E02'', dh_image = PNone, dh_download_hash = PStr ''h2'',
        dh_torrent_name = PStr ''Up.2009.mkv'', dh_torrent_description = PNone,
        dh_torrent_site = Some ''NewSite''\<rparr>] \<and>
   list_all (written_from
       [(None, PStr ''movie'', PStr ''Up'', PStr ''2009'', PInt 14160, None, PNone, PStr ''h1'',
           PStr ''Up.2009.mkv'', PNone, Some ''OldSite''),
          (Some ''/downloads/films/Up (2009)'', PStr ''movie'', PStr ''Up'', PStr ''2009'',
           PInt 14160, Some ''S01 E02'', PNone, PStr ''h2'', PStr ''Up.2009.mkv'', PNone,
           Some ''OldSite'')])
     (downloadhistory (final (init_plugin example_loads
      \<lparr>TRANSFER_HISTORY = [], PLUGIN_HISTORY = [],
       DOWNLOAD_HISTORY =
         [(None, PStr ''movie'', PStr ''Up'', PStr ''2009'', PInt 14160, None, PNone, PStr ''h1'',
           PStr ''Up.2009.mkv'', PNone, Some ''OldSite''),
          (Some ''/downloads/films/Up (2009)'', PStr ''movie'', PStr ''Up'', PStr ''2009'',
           PInt 14160, Some ''S01 E02'', PNone, PStr ''h2'', PStr ''Up.2009.mkv'', PNone,
           Some ''OldSite'')], bare_row = hd\<rparr>
      (Some \<lparr>clear = False, nt_db_path = Some ''/nt/user.db'', path = None,
              site = Some ''OldSite:NewSite'', transfer = False, plugin = False,
              downloader = None, download = True\<rparr>)
      fresh)))"
proof -
  let ?db = "\<lparr>TRANSFER_HISTORY = [], PLUGIN_HISTORY = [],
       DOWNLOAD_HISTORY =
         [(None, PStr ''movie'', PStr ''Up'', PStr ''2009'', PInt 14160, None, PNone, PStr ''h1'',
           PStr ''Up.2009.mkv'', PNone, Some ''OldSite''),
          (Some ''/downloads/films/Up (2009)'', PStr ''movie'', PStr ''Up'', PStr ''2009'',
           PInt 14160, Some ''S01 E02'', PNone, PStr ''h2'', PStr ''Up.2009.mkv'', PNone,
           Some ''OldSite'')], bare_row = hd\<rparr>"
  let ?c = "\<lparr>clear = False, nt_db_path = Some ''/nt/user.db'', path = None,
              site = Some ''OldSite:NewSite'', transfer = False, plugin = False,
              downloader = None, download = True\<rparr>"
  have run: "downloadhistory (final (init_plugin example_loads ?db (Some ?c) fresh)) =
     [Download_add \<lparr>dh_path = ''Up (2009)'', dh_type = PStr ''movie'', dh_title = PStr ''Up'',
        dh_year = PStr ''2009'', dh_tmdbid = PInt 14160, dh_seasons = Some ''S01'',
        dh_episodes = Some ''E02'', dh_image = PNone, dh_download_hash = PStr ''h2'',
        dh_torrent_name = PStr ''Up.2009.mkv'', dh_torrent_description = PNone,
        dh_torrent_site = Some ''NewSite''\<rparr>]"
    by (simp add: run_defs download_query_def remap_site_def site_step_def basename_def
        seasons_of_def episodes_of_def instr_def substr3_def substr2_def)
  from download_paths_are_not_null [of ?db example_loads ?c fresh]
  obtain new where "downloadhistory (final (init_plugin example_loads ?db (Some ?c) fresh)) =
      downloadhistory fresh @ new" "list_all (written_from (DOWNLOAD_HISTORY ?db)) new" by blast
  then have "list_all (written_from (DOWNLOAD_HISTORY ?db))
      (downloadhistory (final (init_plugin example_loads ?db (Some ?c) fresh)))"
    by (simp add: fresh_def)
  with run show ?thesis by simp
qed

end
